theory Spec2Isabelle
  imports Complex_Main
begin

section \<open>The PubCast Playwright sidecar: fingerprints and browser sessions\<close>

text \<open>
  This theory embeds two modules of the sidecar, \<^verbatim>\<open>fingerprint.js\<close> and
  \<^verbatim>\<open>browser-manager.js\<close>, as functions over an explicit state. The module
  variables \<^verbatim>\<open>activeBrowsers\<close> and \<^verbatim>\<open>loginWatchers\<close> are maps in the state, the
  profile directory is a map from paths to JSON documents, and every call that leaves
  the process (the browser, the clock, the random generator) is either an outcome handed
  to the operation that makes the call, or a stream in the state from which repeated
  calls read in order. An \<^verbatim>\<open>async\<close> function is run to completion before the next
  event is taken, so interleavings of two callbacks at an \<^verbatim>\<open>await\<close> are outside
  the model.
\<close>

subsection \<open>Strings and numbers\<close>

type_synonym account_id = string
type_synonym path = string

text \<open>\<^verbatim>\<open>String.prototype.includes\<close>: the needle occurs somewhere in the text.\<close>

fun starts_with :: "string \<Rightarrow> string \<Rightarrow> bool" where
  "starts_with s [] = True"
| "starts_with [] (c # cs) = False"
| "starts_with (x # xs) (c # cs) = (x = c \<and> starts_with xs cs)"

fun str_includes :: "string \<Rightarrow> string \<Rightarrow> bool" where
  "str_includes [] sub = (sub = [])"
| "str_includes (x # xs) sub = (starts_with (x # xs) sub \<or> str_includes xs sub)"

text \<open>\<^verbatim>\<open>path.join\<close> on two segments; the normalisation of \<^verbatim>\<open>..\<close> and of repeated
  separators that Node performs is not modelled.\<close>

definition path_join :: "path \<Rightarrow> string \<Rightarrow> path" where
  "path_join a b = a @ ''/'' @ b"

text \<open>Decimal rendering of a number, as a template literal prints it.\<close>

definition digit_char :: "nat \<Rightarrow> char" where
  "digit_char n = ''0123456789'' ! (n mod 10)"

fun string_of_nat :: "nat \<Rightarrow> string" where
  "string_of_nat n =
     (if n < 10 then [digit_char n] else string_of_nat (n div 10) @ [digit_char (n mod 10)])"

declare string_of_nat.simps [simp del]

subsection \<open>fingerprint.js: the tables\<close>

record resolution =
  res_width :: nat
  res_height :: nat

record webgl_config =
  gl_vendor :: string
  gl_renderer :: string

definition SCREEN_RESOLUTIONS :: "resolution list" where
  "SCREEN_RESOLUTIONS =
     [\<lparr>res_width = 1920, res_height = 1080\<rparr>,
      \<lparr>res_width = 1366, res_height = 768\<rparr>,
      \<lparr>res_width = 1536, res_height = 864\<rparr>,
      \<lparr>res_width = 1440, res_height = 900\<rparr>,
      \<lparr>res_width = 1280, res_height = 720\<rparr>,
      \<lparr>res_width = 2560, res_height = 1440\<rparr>]"

definition USER_AGENTS :: "string list" where
  "USER_AGENTS =
     [''Mozilla/5.0 (Macintosh; Intel Mac OS X 10_15_7) AppleWebKit/537.36 (KHTML, like Gecko) Chrome/120.0.0.0 Safari/537.36'',
      ''Mozilla/5.0 (Windows NT 10.0; Win64; x64) AppleWebKit/537.36 (KHTML, like Gecko) Chrome/120.0.0.0 Safari/537.36'',
      ''Mozilla/5.0 (Macintosh; Intel Mac OS X 10_15_7) AppleWebKit/537.36 (KHTML, like Gecko) Chrome/119.0.0.0 Safari/537.36'',
      ''Mozilla/5.0 (Windows NT 10.0; Win64; x64) AppleWebKit/537.36 (KHTML, like Gecko) Chrome/119.0.0.0 Safari/537.36'',
      ''Mozilla/5.0 (Macintosh; Intel Mac OS X 10_14_6) AppleWebKit/537.36 (KHTML, like Gecko) Chrome/120.0.0.0 Safari/537.36'']"

definition TIMEZONES :: "string list" where
  "TIMEZONES =
     [''Asia/Shanghai'', ''Asia/Hong_Kong'', ''Asia/Tokyo'', ''Asia/Singapore'',
      ''America/New_York'', ''America/Los_Angeles'', ''Europe/London'']"

definition LOCALES :: "string list" where
  "LOCALES = [''zh-CN'', ''zh-TW'', ''en-US'', ''en-GB'', ''ja-JP'']"

definition WEBGL_CONFIGS :: "webgl_config list" where
  "WEBGL_CONFIGS =
     [\<lparr>gl_vendor = ''Google Inc. (Apple)'',
       gl_renderer = ''ANGLE (Apple, ANGLE Metal Renderer: Apple M1, Unspecified Version)''\<rparr>,
      \<lparr>gl_vendor = ''Google Inc. (Intel)'',
       gl_renderer = ''ANGLE (Intel, Intel(R) UHD Graphics 630, OpenGL 4.1)''\<rparr>,
      \<lparr>gl_vendor = ''Google Inc. (NVIDIA)'',
       gl_renderer = ''ANGLE (NVIDIA, NVIDIA GeForce RTX 3060 Direct3D11 vs_5_0 ps_5_0, D3D11)''\<rparr>,
      \<lparr>gl_vendor = ''Google Inc. (AMD)'',
       gl_renderer = ''ANGLE (AMD, AMD Radeon RX 6700 XT Direct3D11 vs_5_0 ps_5_0, D3D11)''\<rparr>]"

definition FONTS :: "string list" where
  "FONTS =
     [''Arial'', ''Arial Black'', ''Comic Sans MS'', ''Courier New'', ''Georgia'',
      ''Impact'', ''Times New Roman'', ''Trebuchet MS'', ''Verdana'', ''Helvetica'',
      ''Microsoft YaHei'', ''SimSun'', ''SimHei'', ''PingFang SC'', ''Hiragino Sans GB'']"

subsection \<open>Reading a key of an object literal\<close>

text \<open>
  The two lookup tables of the module are object literals read with \<^verbatim>\<open>table[key]\<close>.
  Such a read finds the literal's own keys and, failing that, the members every object
  inherits from \<^verbatim>\<open>Object.prototype\<close>: functions, and for \<^verbatim>\<open>__proto__\<close> the prototype
  itself, all of them truthy. Any other key reads \<^verbatim>\<open>undefined\<close>.
\<close>

definition OBJECT_PROTOTYPE_KEYS :: "string list" where
  "OBJECT_PROTOTYPE_KEYS =
     [''constructor'', ''__defineGetter__'', ''__defineSetter__'', ''hasOwnProperty'',
      ''__lookupGetter__'', ''__lookupSetter__'', ''isPrototypeOf'',
      ''propertyIsEnumerable'', ''toString'', ''valueOf'', ''__proto__'',
      ''toLocaleString'']"

datatype 'a property = Own 'a | Inherited string

definition object_get :: "(string \<times> 'a) list \<Rightarrow> string \<Rightarrow> 'a property option" where
  "object_get table key =
     (case map_of table key of
        Some v \<Rightarrow> Some (Own v)
      | None \<Rightarrow> if key \<in> set OBJECT_PROTOTYPE_KEYS then Some (Inherited key) else None)"

subsection \<open>The fingerprint object\<close>

record screen_info =
  scr_width :: nat
  scr_height :: nat
  scr_availWidth :: nat
  scr_availHeight :: int
  scr_colorDepth :: nat
  scr_pixelDepth :: nat
  scr_devicePixelRatio :: rat

record navigator_info =
  nav_userAgent :: string
  nav_platform :: string
  nav_language :: string
  nav_languages :: "string list"
  nav_hardwareConcurrency :: nat
  nav_deviceMemory :: nat
  nav_maxTouchPoints :: nat
  nav_vendor :: string

record timezone_info =
  tz_id :: string
  tz_offset :: "int property"

text \<open>The canvas seed is \<^verbatim>\<open>Math.random().toString(36).substring(2, 15)\<close>; the base-36
  rendering of a double is not modelled, the field keeps the draw it is printed from.\<close>

record canvas_info =
  cv_noise :: rat
  cv_seed :: rat

record fingerprint =
  fp_screen :: screen_info
  fp_navigator :: navigator_info
  fp_timezone :: timezone_info
  fp_webgl :: webgl_config
  fp_canvas :: canvas_info
  fp_audio_noise :: rat
  fp_fonts :: "string list"
  fp_generatedAt :: nat

record geolocation =
  latitude :: rat
  longitude :: rat

text \<open>The argument of \<^verbatim>\<open>generateFingerprint\<close>; a field left out is \<open>None\<close>.\<close>

record fp_options =
  opt_screen :: "resolution option"
  opt_userAgent :: "string option"
  opt_timezone :: "string option"
  opt_locale :: "string option"
  opt_webgl :: "webgl_config option"

definition no_options :: fp_options where
  "no_options = \<lparr>opt_screen = None, opt_userAgent = None, opt_timezone = None,
                  opt_locale = None, opt_webgl = None\<rparr>"

subsection \<open>The outside world read by the fingerprint generator\<close>

text \<open>
  \<^verbatim>\<open>Math.random()\<close> and \<^verbatim>\<open>Date.now()\<close> read two streams. \<^verbatim>\<open>Math.random()\<close>
  returns a number in \<open>[0, 1)\<close>: the stream may hold any rational, and the draw is its
  fractional part. The products in \<^verbatim>\<open>randomChoice\<close> and \<^verbatim>\<open>randomInt\<close> are exact here,
  where the code rounds them to a double before \<^verbatim>\<open>Math.floor\<close>; for a draw within half
  a unit in the last place of a multiple of \<open>1/n\<close> the two can pick neighbouring entries.
  Both stay inside the table (the largest double below 1, times \<open>n\<close>, rounds to a double
  below \<open>n\<close>), and nothing proved below depends on which entry a draw picks.
\<close>

record world =
  rng :: "nat \<Rightarrow> rat"
  clock :: "nat \<Rightarrow> nat"

definition math_random :: "'a world_scheme \<Rightarrow> rat \<times> 'a world_scheme" where
  "math_random st = (frac (rng st 0), st\<lparr>rng := (\<lambda>n. rng st (Suc n))\<rparr>)"

definition date_now :: "'a world_scheme \<Rightarrow> nat \<times> 'a world_scheme" where
  "date_now st = (clock st 0, st\<lparr>clock := (\<lambda>n. clock st (Suc n))\<rparr>)"

definition randomChoice :: "'b list \<Rightarrow> 'a world_scheme \<Rightarrow> 'b \<times> 'a world_scheme" where
  "randomChoice arr st =
     (let (r, st1) = math_random st
      in (arr ! nat \<lfloor>r * of_nat (length arr)\<rfloor>, st1))"

definition randomInt :: "int \<Rightarrow> int \<Rightarrow> 'a world_scheme \<Rightarrow> int \<times> 'a world_scheme" where
  "randomInt lo hi st =
     (let (r, st1) = math_random st
      in (\<lfloor>r * of_int (hi - lo + 1)\<rfloor> + lo, st1))"

definition generateCanvasNoise :: "'a world_scheme \<Rightarrow> canvas_info \<times> 'a world_scheme" where
  "generateCanvasNoise st =
     (let (n, st1) = randomInt 1 10 st;
          (s, st2) = math_random st1
      in (\<lparr>cv_noise = of_int n / 100, cv_seed = s\<rparr>, st2))"

text \<open>\<^verbatim>\<open>offsets[timezone] || 0\<close>: an own entry of 0 is falsy and gives the 0 after
  \<^verbatim>\<open>||\<close>, an inherited member is returned as it is.\<close>

definition getTimezoneOffset :: "string \<Rightarrow> int property" where
  "getTimezoneOffset timezone =
     (case object_get
        [(''Asia/Shanghai'', -480), (''Asia/Hong_Kong'', -480), (''Asia/Tokyo'', -540),
         (''Asia/Singapore'', -480), (''America/New_York'', 300),
         (''America/Los_Angeles'', 480), (''Europe/London'', 0)] timezone of
        Some (Own off) \<Rightarrow> if off \<noteq> 0 then Own off else Own 0
      | Some (Inherited member) \<Rightarrow> Inherited member
      | None \<Rightarrow> Own 0)"

text \<open>\<^verbatim>\<open>locations[timezone] || { latitude: 0, longitude: 0 }\<close>: every entry is an
  object, hence truthy.\<close>

definition getGeolocationFromTimezone :: "string \<Rightarrow> geolocation property" where
  "getGeolocationFromTimezone timezone =
     (case object_get
        [(''Asia/Shanghai'', \<lparr>latitude = 31.2304, longitude = 121.4737\<rparr>),
         (''Asia/Hong_Kong'', \<lparr>latitude = 22.3193, longitude = 114.1694\<rparr>),
         (''Asia/Tokyo'', \<lparr>latitude = 35.6762, longitude = 139.6503\<rparr>),
         (''Asia/Singapore'', \<lparr>latitude = 1.3521, longitude = 103.8198\<rparr>),
         (''America/New_York'', \<lparr>latitude = 40.7128, longitude = -74.0060\<rparr>),
         (''America/Los_Angeles'', \<lparr>latitude = 34.0522, longitude = -118.2437\<rparr>),
         (''Europe/London'', \<lparr>latitude = 51.5074, longitude = -0.1278\<rparr>)] timezone of
        Some found \<Rightarrow> found
      | None \<Rightarrow> Own \<lparr>latitude = 0, longitude = 0\<rparr>)"

text \<open>\<^verbatim>\<open>options.x || randomChoice(XS)\<close>: the table is drawn from only when the option is
  missing or falsy; for a string the empty string is falsy, an object never is.\<close>

definition option_or_choice ::
  "'b option \<Rightarrow> ('b \<Rightarrow> bool) \<Rightarrow> 'b list \<Rightarrow> 'a world_scheme \<Rightarrow> 'b \<times> 'a world_scheme" where
  "option_or_choice opt truthy arr st =
     (case opt of
        Some v \<Rightarrow> if truthy v then (v, st) else randomChoice arr st
      | None \<Rightarrow> randomChoice arr st)"

definition truthy_string :: "string \<Rightarrow> bool" where
  "truthy_string s = (s \<noteq> [])"

definition generateFingerprint :: "fp_options \<Rightarrow> 'a world_scheme \<Rightarrow> fingerprint \<times> 'a world_scheme" where
  "generateFingerprint options st =
     (let (screen, st1) = option_or_choice (opt_screen options) (\<lambda>_. True) SCREEN_RESOLUTIONS st;
          (userAgent, st2) = option_or_choice (opt_userAgent options) truthy_string USER_AGENTS st1;
          (timezone, st3) = option_or_choice (opt_timezone options) truthy_string TIMEZONES st2;
          (locale, st4) = option_or_choice (opt_locale options) truthy_string LOCALES st3;
          (webgl, st5) = option_or_choice (opt_webgl options) (\<lambda>_. True) WEBGL_CONFIGS st4;
          isMac = str_includes userAgent ''Macintosh'';
          platform = (if isMac then ''MacIntel'' else ''Win32'');
          (hardwareConcurrency, st6) =
             (if isMac then randomChoice [8, 10, 12] st5 else randomChoice [4, 8, 12, 16] st5);
          (deviceMemory, st7) = randomChoice [4, 8, 16, 32] st6;
          (nfonts, st8) = randomInt 10 (int (length FONTS)) st7;
          availableFonts = take (nat nfonts) FONTS;
          (taskbar, st9) = randomInt 30 50 st8;
          (dpr, st10) = randomChoice [1, 1.25, 1.5, 2] st9;
          (maxTouchPoints, st11) = (if isMac then (0, st10) else randomChoice [0, 5, 10] st10);
          (canvas, st12) = generateCanvasNoise st11;
          (audio, st13) = randomInt 1 5 st12;
          (now, st14) = date_now st13
      in (\<lparr>fp_screen =
             \<lparr>scr_width = res_width screen, scr_height = res_height screen,
              scr_availWidth = res_width screen,
              scr_availHeight = int (res_height screen) - taskbar,
              scr_colorDepth = 24, scr_pixelDepth = 24, scr_devicePixelRatio = dpr\<rparr>,
           fp_navigator =
             \<lparr>nav_userAgent = userAgent, nav_platform = platform, nav_language = locale,
              nav_languages = [locale, takeWhile (\<lambda>c. c \<noteq> CHR ''-'') locale],
              nav_hardwareConcurrency = hardwareConcurrency, nav_deviceMemory = deviceMemory,
              nav_maxTouchPoints = maxTouchPoints, nav_vendor = ''Google Inc.''\<rparr>,
           fp_timezone = \<lparr>tz_id = timezone, tz_offset = getTimezoneOffset timezone\<rparr>,
           fp_webgl = \<lparr>gl_vendor = gl_vendor webgl, gl_renderer = gl_renderer webgl\<rparr>,
           fp_canvas = canvas,
           fp_audio_noise = of_int audio / 1000,
           fp_fonts = availableFonts,
           fp_generatedAt = now\<rparr>, st14))"

subsection \<open>Context options\<close>

record viewport =
  vp_width :: nat
  vp_height :: nat

record proxy_options =
  px_server :: string
  px_username :: "string option"
  px_password :: "string option"

text \<open>The object \<^verbatim>\<open>applyFingerprintToContext\<close> returns.\<close>

record fingerprint_options =
  fo_userAgent :: string
  fo_viewport :: viewport
  fo_deviceScaleFactor :: rat
  fo_locale :: string
  fo_timezoneId :: string
  fo_permissions :: "string list"
  fo_geolocation :: "geolocation property"

definition applyFingerprintToContext :: "fingerprint \<Rightarrow> fingerprint_options" where
  "applyFingerprintToContext fingerprint =
     \<lparr>fo_userAgent = nav_userAgent (fp_navigator fingerprint),
      fo_viewport = \<lparr>vp_width = scr_width (fp_screen fingerprint),
                     vp_height = scr_height (fp_screen fingerprint)\<rparr>,
      fo_deviceScaleFactor = scr_devicePixelRatio (fp_screen fingerprint),
      fo_locale = nav_language (fp_navigator fingerprint),
      fo_timezoneId = tz_id (fp_timezone fingerprint),
      fo_permissions = [''geolocation''],
      fo_geolocation = getGeolocationFromTimezone (tz_id (fp_timezone fingerprint))\<rparr>"

subsection \<open>browser-manager.js: data\<close>

type_synonym cookie = "string \<times> string"

text \<open>A JSON document in the profile directory: a fingerprint, or an array of cookies.\<close>

datatype json = JFingerprint fingerprint | JCookies "cookie list"

record proxy =
  proxy_protocol :: "string option"
  proxy_host :: string
  proxy_port :: string
  proxy_username :: "string option"
  proxy_password :: "string option"

record launch_options =
  lo_channel :: string
  lo_headless :: bool
  lo_chromiumSandbox :: bool
  lo_assistantMode :: bool
  lo_cdpPort :: nat
  lo_timeout :: nat
  lo_args :: "string list"
  lo_handleSIGINT :: bool
  lo_handleSIGTERM :: bool

text \<open>\<^verbatim>\<open>contextOptions\<close>: the spread of the fingerprint options, then the keys written
  after it, which replace the spread's where both name the same key.\<close>

record context_options =
  co_userAgent :: string
  co_viewport :: "viewport option"
  co_deviceScaleFactor :: rat
  co_locale :: string
  co_timezoneId :: string
  co_permissions :: "string list"
  co_geolocation :: "geolocation property"
  co_javaScriptEnabled :: bool
  co_ignoreHTTPSErrors :: bool
  co_proxy :: "proxy_options option"

text \<open>\<^verbatim>\<open>finalOptions\<close> spreads both objects; they share no key.\<close>

record final_options =
  fin_launch :: launch_options
  fin_context :: context_options

datatype log_line =
    LogCfDetected
  | LogCfPassed
  | LogCfWaiting nat nat
  | LogAlreadyActive account_id
  | LogLaunching account_id string
  | LogUserDataDir path
  | LogLaunchConfig
  | LogLaunched account_id
  | LogLaunchFailed account_id string
  | LogSessionSaved account_id
  | LogBrowserClosed account_id
  | LogStartWatcher account_id
  | LogWatcherTimeout account_id
  | LogWatcherBrowserClosed account_id
  | LogLoginDetected account_id
  | LogSessionAutoSaved account_id
  | LogLogoutDetected account_id
  | LogStoppedWatcher account_id

text \<open>
  What an operation does outside the module's two maps is appended to a trace, in the
  order of the calls. \<open>Log\<close> is a \<^verbatim>\<open>console\<close> call, one constructor of \<open>log_line\<close>
  for each call site. \<open>SaveSession\<close> and \<open>CheckLoginStatus\<close> mark that
  \<^verbatim>\<open>saveSession\<close> and \<^verbatim>\<open>checkLoginStatus\<close> found the session and entered their
  \<^verbatim>\<open>try\<close> block.
\<close>

datatype event =
    Log log_line
  | EnsureDir path
  | PathExists path
  | ReadJson path
  | WriteJson path json
  | FindFreePort
  | LaunchPersistentContext path final_options
  | NewPage
  | AddInitScript fingerprint
  | SetPageTimeouts
  | Goto string
  | PageProbe
  | MouseMove rat rat int
  | HumanDelay rat
  | Timeout nat
  | SaveSession account_id
  | CheckLoginStatus account_id
  | ContextCookies
  | AdapterCheckLogin string
  | OnLoginDetected account_id
  | ContextClose
  | SetInterval nat nat
  | ClearInterval nat
  | Screenshot path
  | Evaluate string

record session =
  ses_browserContext :: nat
  ses_page :: nat
  ses_fingerprint :: fingerprint
  ses_proxy :: "proxy option"
  ses_platformId :: "string option"
  ses_userDataDir :: path
  ses_launchedAt :: nat
  ses_isLoggedIn :: "bool option"
  ses_loginDetectedAt :: "nat option"

text \<open>The variables a login watcher's callback closes over, and the period its timer was
  registered with.\<close>

record watcher =
  w_accountId :: account_id
  w_wasLoggedIn :: bool
  w_checkCount :: nat
  w_interval :: nat
  w_onLoginDetected :: bool

record page_view =
  pv_title :: string
  pv_url :: string
  pv_content :: string

text \<open>
  The state: the two module maps; the timers the event loop holds (\<^verbatim>\<open>setInterval\<close>
  hands out a fresh one each time, \<^verbatim>\<open>clearInterval\<close> drops it); the profile directory;
  and, beside the random generator and the clock, two more streams: what the page shows
  each time it is inspected (\<open>Inl\<close> when the inspection throws) and whether each
  \<^verbatim>\<open>mouse.move\<close> throws. File-system calls are taken to succeed, and a file to hold
  the JSON value last written to it.
\<close>

record state = world +
  probes :: "nat \<Rightarrow> string + page_view"
  mouse :: "nat \<Rightarrow> bool"
  activeBrowsers :: "account_id \<rightharpoonup> session"
  loginWatchers :: "account_id \<rightharpoonup> nat"
  timers :: "nat \<rightharpoonup> watcher"
  nextTimer :: nat
  files :: "path \<rightharpoonup> json"
  dirs :: "path set"
  trace :: "event list"

text \<open>The result objects. Every operation returns an object with \<^verbatim>\<open>success\<close> and a
  few of the other keys; a key that is absent is \<open>None\<close>.\<close>

record reply =
  success :: bool
  r_accountId :: "string option"
  r_message :: "string option"
  r_error :: "string option"
  r_fingerprint :: "fingerprint option"
  r_url :: "string option"
  r_cookieCount :: "nat option"
  r_isLoggedIn :: "bool option"
  r_platformId :: "string option"
  r_path :: "string option"
  r_result :: "string option"

definition reply_of :: "bool \<Rightarrow> reply" where
  "reply_of ok =
     \<lparr>success = ok, r_accountId = None, r_message = None, r_error = None,
      r_fingerprint = None, r_url = None, r_cookieCount = None, r_isLoggedIn = None,
      r_platformId = None, r_path = None, r_result = None\<rparr>"

definition failure :: "string \<Rightarrow> reply" where
  "failure msg = (reply_of False)\<lparr>r_error := Some msg\<rparr>"

text \<open>\<^verbatim>\<open>{ success: false, error: 'No active browser for this account' }\<close>\<close>

definition not_found :: reply where
  "not_found = failure ''No active browser for this account''"

subsection \<open>Small helpers\<close>

definition emit :: "event \<Rightarrow> state \<Rightarrow> state" where
  "emit e st = st\<lparr>trace := trace st @ [e]\<rparr>"

definition console_log :: "log_line \<Rightarrow> state \<Rightarrow> state" where
  "console_log l st = emit (Log l) st"

text \<open>\<^verbatim>\<open>path.join(process.cwd(), 'profiles')\<close>. Paths are written relative to the
  working directory of the process, which is fixed when the module is loaded.\<close>

definition PROFILES_DIR :: path where
  "PROFILES_DIR = ''profiles''"

definition ensureDir :: "path \<Rightarrow> state \<Rightarrow> state" where
  "ensureDir p st = emit (EnsureDir p) (st\<lparr>dirs := insert p (dirs st)\<rparr>)"

definition writeJson :: "path \<Rightarrow> json \<Rightarrow> state \<Rightarrow> state" where
  "writeJson p j st = emit (WriteJson p j) (st\<lparr>files := (files st)(p \<mapsto> j)\<rparr>)"

definition ensureProfilesDir :: "state \<Rightarrow> state" where
  "ensureProfilesDir st = ensureDir PROFILES_DIR st"

definition getProfilePath :: "account_id \<Rightarrow> path" where
  "getProfilePath accountId = path_join PROFILES_DIR accountId"

definition humanDelay :: "rat \<Rightarrow> rat \<Rightarrow> state \<Rightarrow> state" where
  "humanDelay lo hi st =
     (let (r, st1) = math_random st
      in emit (HumanDelay (r * (hi - lo) + lo)) st1)"

text \<open>\<^verbatim>\<open>simulateHumanBehavior\<close>: an exception of \<^verbatim>\<open>mouse.move\<close> is caught and skips
  the delay.\<close>

definition simulateHumanBehavior :: "state \<Rightarrow> state" where
  "simulateHumanBehavior st =
     (let (r1, st1) = math_random st;
          x = r1 * 800 + 100;
          (r2, st2) = math_random st1;
          y = r2 * 600 + 100;
          (r3, st3) = math_random st2;
          steps = \<lfloor>r3 * 10\<rfloor> + 5;
          throws = mouse st3 0;
          st4 = emit (MouseMove x y steps) (st3\<lparr>mouse := (\<lambda>n. mouse st3 (Suc n))\<rparr>)
      in if throws then st4 else humanDelay 500 1500 st4)"

definition looks_like_challenge :: "page_view \<Rightarrow> bool" where
  "looks_like_challenge v =
     (let titleCheck = (str_includes (pv_title v) ''Just a moment'' \<or>
                        str_includes (pv_title v) ''Please wait'' \<or>
                        str_includes (pv_title v) ''Checking your browser'');
          urlCheck = (str_includes (pv_url v) ''challenge-platform'' \<or>
                      str_includes (pv_url v) ''cf_challenge'');
          contentCheck = (str_includes (pv_content v) ''cf-browser-verification'' \<or>
                          str_includes (pv_content v) ''checking your browser'' \<or>
                          str_includes (pv_content v) ''Ray ID:'')
      in titleCheck \<or> urlCheck \<or> contentCheck)"

text \<open>\<^verbatim>\<open>isCloudflareChallenge\<close>: an exception while reading the page counts as no
  challenge.\<close>

definition isCloudflareChallenge :: "state \<Rightarrow> bool \<times> state" where
  "isCloudflareChallenge st =
     (let probe = probes st 0;
          st1 = emit PageProbe (st\<lparr>probes := (\<lambda>n. probes st (Suc n))\<rparr>)
      in (case probe of Inl _ \<Rightarrow> False | Inr v \<Rightarrow> looks_like_challenge v, st1))"

definition maxAttempts :: nat where
  "maxAttempts = 12"

text \<open>The \<^verbatim>\<open>while\<close> loop of \<^verbatim>\<open>handleCloudflareChallenge\<close>, from a value of
  \<^verbatim>\<open>attempts\<close>.\<close>

function challenge_loop :: "nat \<Rightarrow> state \<Rightarrow> bool \<times> state" where
  "challenge_loop attempts st =
     (if attempts < maxAttempts then
        (let (isStillChallenge, st1) = isCloudflareChallenge st
         in if \<not> isStillChallenge then
              (True, humanDelay 1000 2000 (console_log LogCfPassed st1))
            else
              (let st2 = (if attempts mod 3 = 0 then simulateHumanBehavior st1 else st1);
                   st3 = emit (Timeout 5000) st2;
                   st4 = console_log (LogCfWaiting (attempts + 1) maxAttempts) st3
               in challenge_loop (attempts + 1) st4))
      else (False, st))"
  by pat_completeness auto
termination
  by (relation "measure (\<lambda>(attempts, st). maxAttempts - attempts)") auto

declare challenge_loop.simps [simp del]

text \<open>\<^verbatim>\<open>handleCloudflareChallenge\<close>. Nothing the \<^verbatim>\<open>try\<close> block calls can throw (each
  callee catches its own exceptions), so the \<^verbatim>\<open>catch\<close> branch has no run.\<close>

definition handleCloudflareChallenge :: "state \<Rightarrow> bool \<times> state" where
  "handleCloudflareChallenge st =
     challenge_loop 0 (simulateHumanBehavior (console_log LogCfDetected st))"

subsection \<open>Fingerprints and cookies on disk\<close>

definition loadOrCreateFingerprint :: "account_id \<Rightarrow> state \<Rightarrow> json \<times> state" where
  "loadOrCreateFingerprint accountId st =
     (let fingerprintPath = path_join (getProfilePath accountId) ''fingerprint.json'';
          st1 = emit (PathExists fingerprintPath) st
      in case files st1 fingerprintPath of
           Some stored \<Rightarrow> (stored, emit (ReadJson fingerprintPath) st1)
         | None \<Rightarrow>
             (let (fingerprint, st2) = generateFingerprint no_options st1;
                  st3 = ensureDir (getProfilePath accountId) st2;
                  st4 = writeJson fingerprintPath (JFingerprint fingerprint) st3
              in (JFingerprint fingerprint, st4)))"

definition saveCookies :: "account_id \<Rightarrow> cookie list \<Rightarrow> state \<Rightarrow> state" where
  "saveCookies accountId cookies st =
     (let cookiesPath = path_join (getProfilePath accountId) ''cookies.json''
      in writeJson cookiesPath (JCookies cookies) st)"

subsection \<open>Login watchers\<close>

text \<open>\<^verbatim>\<open>stopLoginWatcher\<close>. The timer object Node returns is never falsy, so the test
  \<^verbatim>\<open>if (intervalId)\<close> asks whether the map has an entry.\<close>

definition stopLoginWatcher :: "account_id \<Rightarrow> state \<Rightarrow> state" where
  "stopLoginWatcher accountId st =
     (case loginWatchers st accountId of
        None \<Rightarrow> st
      | Some intervalId \<Rightarrow>
          (let st1 = emit (ClearInterval intervalId) (st\<lparr>timers := (timers st)(intervalId := None)\<rparr>);
               st2 = st1\<lparr>loginWatchers := (loginWatchers st1)(accountId := None)\<rparr>
           in console_log (LogStoppedWatcher accountId) st2))"

definition maxChecks :: nat where
  "maxChecks = 120"

definition startLoginWatcher :: "account_id \<Rightarrow> bool \<Rightarrow> state \<Rightarrow> state" where
  "startLoginWatcher accountId onLoginDetected st =
     (let st1 = stopLoginWatcher accountId st;
          st2 = console_log (LogStartWatcher accountId) st1;
          intervalId = nextTimer st2;
          st3 = emit (SetInterval intervalId 1000)
                  (st2\<lparr>timers := (timers st2)(intervalId \<mapsto>
                          \<lparr>w_accountId = accountId, w_wasLoggedIn = False, w_checkCount = 0,
                           w_interval = 1000, w_onLoginDetected = onLoginDetected\<rparr>),
                        nextTimer := Suc intervalId\<rparr>)
      in st3\<lparr>loginWatchers := (loginWatchers st3)(accountId \<mapsto> intervalId)\<rparr>)"

subsection \<open>Operations on a session\<close>

text \<open>\<^verbatim>\<open>saveSession\<close>; its argument beside the account is what
  \<^verbatim>\<open>browserContext.cookies()\<close> does: throw (\<open>Inl\<close>) or return the cookies.\<close>

definition saveSession :: "account_id \<Rightarrow> string + cookie list \<Rightarrow> state \<Rightarrow> reply \<times> state" where
  "saveSession accountId cookies_result st =
     (case activeBrowsers st accountId of
        None \<Rightarrow> (not_found, st)
      | Some session \<Rightarrow>
          (let st1 = emit ContextCookies (emit (SaveSession accountId) st)
           in case cookies_result of
                Inl msg \<Rightarrow> (failure msg, st1)
              | Inr cookies \<Rightarrow>
                  (let st2 = saveCookies accountId cookies st1;
                       st3 = console_log (LogSessionSaved accountId) st2
                   in ((reply_of True)\<lparr>r_cookieCount := Some (length cookies)\<rparr>, st3))))"

record close_env =
  cl_cookies :: "string + cookie list"
  cl_close :: "string option"

definition closeBrowser :: "account_id \<Rightarrow> bool \<Rightarrow> close_env \<Rightarrow> state \<Rightarrow> reply \<times> state" where
  "closeBrowser accountId saveSessionBeforeClose env st =
     (case activeBrowsers st accountId of
        None \<Rightarrow> (not_found, st)
      | Some session \<Rightarrow>
          (let st1 = stopLoginWatcher accountId st;
               st2 = (if saveSessionBeforeClose
                      then snd (saveSession accountId (cl_cookies env) st1) else st1);
               st3 = emit ContextClose st2
           in case cl_close env of
                Some msg \<Rightarrow> (failure msg, st3)
              | None \<Rightarrow>
                  (let st4 = st3\<lparr>activeBrowsers := (activeBrowsers st3)(accountId := None)\<rparr>
                   in (reply_of True, console_log (LogBrowserClosed accountId) st4))))"

record nav_options =
  watchLogin :: "bool option"

definition navigateTo ::
  "account_id \<Rightarrow> string \<Rightarrow> nav_options \<Rightarrow> string option \<Rightarrow> state \<Rightarrow> reply \<times> state" where
  "navigateTo accountId url options goto_throws st =
     (case activeBrowsers st accountId of
        None \<Rightarrow> (not_found, st)
      | Some session \<Rightarrow>
          (let watch = (case watchLogin options of None \<Rightarrow> True | Some b \<Rightarrow> b);
               st1 = emit (Goto url) (emit SetPageTimeouts st)
           in case goto_throws of
                Some msg \<Rightarrow> (failure msg, st1)
              | None \<Rightarrow>
                  (let st2 = humanDelay 1000 2000 st1;
                       (challenge, st3) = isCloudflareChallenge st2;
                       st4 = (if challenge then snd (handleCloudflareChallenge st3) else st3);
                       st5 = simulateHumanBehavior st4;
                       st6 = (if watch then startLoginWatcher accountId False st5 else st5)
                   in ((reply_of True)\<lparr>r_url := Some url\<rparr>, st6))))"

definition takeScreenshot :: "account_id \<Rightarrow> string option \<Rightarrow> state \<Rightarrow> reply \<times> state" where
  "takeScreenshot accountId screenshot_throws st =
     (case activeBrowsers st accountId of
        None \<Rightarrow> (not_found, st)
      | Some session \<Rightarrow>
          (let (now, st1) = date_now st;
               screenshotPath = path_join (getProfilePath accountId)
                                  (''screenshot-'' @ string_of_nat now @ ''.png'');
               st2 = emit (Screenshot screenshotPath) st1
           in case screenshot_throws of
                Some msg \<Rightarrow> (failure msg, st2)
              | None \<Rightarrow> ((reply_of True)\<lparr>r_path := Some screenshotPath\<rparr>, st2)))"

definition executeScript :: "account_id \<Rightarrow> string \<Rightarrow> string + string \<Rightarrow> state \<Rightarrow> reply \<times> state" where
  "executeScript accountId script evaluated st =
     (case activeBrowsers st accountId of
        None \<Rightarrow> (not_found, st)
      | Some session \<Rightarrow>
          (let st1 = emit (Evaluate script) st
           in case evaluated of
                Inl msg \<Rightarrow> (failure msg, st1)
              | Inr result \<Rightarrow> ((reply_of True)\<lparr>r_result := Some result\<rparr>, st1)))"

text \<open>
  \<^verbatim>\<open>checkLoginStatus\<close>. The adapter registry is filled from two files, one of which is
  not among the sources, so whether a platform has an adapter is a parameter; what the
  adapter reports (or that it throws) and what \<^verbatim>\<open>cookies()\<close> returns come with it.
\<close>

record check_env =
  ce_hasAdapter :: "string \<Rightarrow> bool"
  ce_adapter :: "string + bool"
  ce_cookies :: "string + cookie list"

definition checkLoginStatus :: "account_id \<Rightarrow> check_env \<Rightarrow> state \<Rightarrow> reply \<times> state" where
  "checkLoginStatus accountId env st =
     (case activeBrowsers st accountId of
        None \<Rightarrow> (not_found, st)
      | Some session \<Rightarrow>
          (let st0 = emit (CheckLoginStatus accountId) st;
               platformId = (case ses_platformId session of
                               None \<Rightarrow> accountId
                             | Some p \<Rightarrow> if truthy_string p then p else accountId)
           in if \<not> ce_hasAdapter env platformId then
                (let st1 = emit ContextCookies st0
                 in case ce_cookies env of
                      Inl msg \<Rightarrow> (failure msg, st1)
                    | Inr cookies \<Rightarrow>
                        ((reply_of True)\<lparr>r_isLoggedIn := Some (length cookies > 5),
                                          r_cookieCount := Some (length cookies),
                                          r_platformId := Some platformId\<rparr>, st1))
              else
                (let st1 = emit (AdapterCheckLogin platformId) st0
                 in case ce_adapter env of
                      Inl msg \<Rightarrow> (failure msg, st1)
                    | Inr loggedIn \<Rightarrow>
                        ((reply_of True)\<lparr>r_isLoggedIn := Some loggedIn,
                                          r_platformId := Some platformId\<rparr>, st1))))"

subsection \<open>The watcher's tick\<close>

text \<open>
  The callback \<^verbatim>\<open>startLoginWatcher\<close> hands to \<^verbatim>\<open>setInterval\<close>, run for the timer
  \<open>intervalId\<close>. A timer that has been cleared does not fire. The session object is held
  by reference: writing one of its fields changes the entry of \<^verbatim>\<open>activeBrowsers\<close> that
  holds the object, and adds no entry. The environment of a tick says what the login
  check meets and what \<^verbatim>\<open>cookies()\<close> does if the session is saved. The call of
  \<^verbatim>\<open>onLoginDetected\<close> is the last statement of the \<^verbatim>\<open>try\<close> block, so whether it
  throws changes nothing: the \<^verbatim>\<open>catch\<close> block is empty.
\<close>

record tick_env =
  te_check :: check_env
  te_cookies :: "string + cookie list"

definition set_watcher :: "nat \<Rightarrow> (watcher \<Rightarrow> watcher) \<Rightarrow> state \<Rightarrow> state" where
  "set_watcher intervalId f st =
     (case timers st intervalId of
        None \<Rightarrow> st
      | Some w \<Rightarrow> st\<lparr>timers := (timers st)(intervalId \<mapsto> f w)\<rparr>)"

definition set_session :: "account_id \<Rightarrow> (session \<Rightarrow> session) \<Rightarrow> state \<Rightarrow> state" where
  "set_session accountId f st =
     (case activeBrowsers st accountId of
        None \<Rightarrow> st
      | Some session \<Rightarrow> st\<lparr>activeBrowsers := (activeBrowsers st)(accountId \<mapsto> f session)\<rparr>)"

definition loginWatcherTick :: "nat \<Rightarrow> tick_env \<Rightarrow> state \<Rightarrow> state" where
  "loginWatcherTick intervalId env st =
     (case timers st intervalId of
        None \<Rightarrow> st
      | Some w \<Rightarrow>
          (let accountId = w_accountId w;
               checkCount = w_checkCount w + 1;
               st1 = set_watcher intervalId (\<lambda>w. w\<lparr>w_checkCount := checkCount\<rparr>) st
           in if checkCount > maxChecks then
                stopLoginWatcher accountId (console_log (LogWatcherTimeout accountId) st1)
              else
                (case activeBrowsers st1 accountId of
                   None \<Rightarrow>
                     stopLoginWatcher accountId
                       (console_log (LogWatcherBrowserClosed accountId) st1)
                 | Some session \<Rightarrow>
                     (let (status, st2) = checkLoginStatus accountId (te_check env) st1
                      in if success status \<and> r_isLoggedIn status = Some True
                            \<and> \<not> w_wasLoggedIn w then
                           (let st3 = console_log (LogLoginDetected accountId) st2;
                                st4 = set_watcher intervalId (\<lambda>w. w\<lparr>w_wasLoggedIn := True\<rparr>) st3;
                                st5 = snd (saveSession accountId (te_cookies env) st4);
                                st6 = console_log (LogSessionAutoSaved accountId) st5;
                                st7 = set_session accountId (\<lambda>s. s\<lparr>ses_isLoggedIn := Some True\<rparr>) st6;
                                (now, st8) = date_now st7;
                                st9 = set_session accountId
                                        (\<lambda>s. s\<lparr>ses_loginDetectedAt := Some now\<rparr>) st8
                            in if w_onLoginDetected w
                               then emit (OnLoginDetected accountId) st9 else st9)
                         else if success status \<and> r_isLoggedIn status \<noteq> Some True
                                 \<and> w_wasLoggedIn w then
                           (let st3 = console_log (LogLogoutDetected accountId) st2;
                                st4 = set_watcher intervalId (\<lambda>w. w\<lparr>w_wasLoggedIn := False\<rparr>) st3
                            in set_session accountId (\<lambda>s. s\<lparr>ses_isLoggedIn := Some False\<rparr>) st4)
                         else st2))))"

text \<open>A run of ticks of one timer, one environment for each tick, with nothing else
  happening in between.\<close>

fun run_ticks :: "nat \<Rightarrow> tick_env list \<Rightarrow> state \<Rightarrow> state" where
  "run_ticks intervalId [] st = st"
| "run_ticks intervalId (env # envs) st =
     run_ticks intervalId envs (loginWatcherTick intervalId env st)"

subsection \<open>Launching a browser\<close>

record launch_args =
  la_accountId :: account_id
  la_platformId :: "string option"
  la_proxy :: "proxy option"
  la_headless :: "bool option"

record browser_context =
  bc_id :: nat
  bc_pages :: "nat list"

text \<open>What the browser does during a launch: the port \<^verbatim>\<open>findFreePort\<close> finds, and for
  each of the three awaited calls inside the \<^verbatim>\<open>try\<close> block whether it throws (with
  the exception's message) or what it returns.\<close>

record launch_env =
  le_cdpPort :: nat
  le_context :: "string + browser_context"
  le_newPage :: "string + nat"
  le_addInitScript :: "string option"

definition proxy_of :: "proxy \<Rightarrow> proxy_options" where
  "proxy_of p =
     (let server = (case proxy_protocol p of
                      None \<Rightarrow> ''http''
                    | Some pr \<Rightarrow> if truthy_string pr then pr else ''http'')
                   @ ''://'' @ proxy_host p @ '':'' @ proxy_port p;
          both = (case (proxy_username p, proxy_password p) of
                    (Some u, Some pw) \<Rightarrow> truthy_string u \<and> truthy_string pw
                  | _ \<Rightarrow> False)
      in \<lparr>px_server = server,
          px_username = (if both then proxy_username p else None),
          px_password = (if both then proxy_password p else None)\<rparr>)"

definition contextOptions_of :: "fingerprint \<Rightarrow> proxy option \<Rightarrow> context_options" where
  "contextOptions_of fingerprint proxy =
     (let fingerprintOptions = applyFingerprintToContext fingerprint
      in \<lparr>co_userAgent = fo_userAgent fingerprintOptions,
          co_viewport = None,
          co_deviceScaleFactor = fo_deviceScaleFactor fingerprintOptions,
          co_locale = (if truthy_string (nav_language (fp_navigator fingerprint))
                       then nav_language (fp_navigator fingerprint) else ''zh-CN''),
          co_timezoneId = ''Asia/Shanghai'',
          co_permissions = fo_permissions fingerprintOptions,
          co_geolocation = fo_geolocation fingerprintOptions,
          co_javaScriptEnabled = True,
          co_ignoreHTTPSErrors = True,
          co_proxy = map_option proxy_of proxy\<rparr>)"

definition launchOptions_of :: "bool \<Rightarrow> nat \<Rightarrow> launch_options" where
  "launchOptions_of headless cdpPort =
     \<lparr>lo_channel = ''chrome'', lo_headless = headless, lo_chromiumSandbox = True,
      lo_assistantMode = True, lo_cdpPort = cdpPort, lo_timeout = 60000,
      lo_args = [''--no-first-run'', ''--disable-default-apps'',
                 ''--no-default-browser-check'', ''--start-maximized''],
      lo_handleSIGINT = False, lo_handleSIGTERM = False\<rparr>"

text \<open>The \<^verbatim>\<open>catch\<close> block of \<^verbatim>\<open>launchBrowser\<close>.\<close>

definition launch_failed :: "account_id \<Rightarrow> string \<Rightarrow> state \<Rightarrow> reply \<times> state" where
  "launch_failed accountId message st =
     (let st1 = console_log (LogLaunchFailed accountId message) st
      in if str_includes message ''Executable doesn't exist'' then
           ((failure ''Chrome not installed. Please install Google Chrome.'')
              \<lparr>r_accountId := Some accountId\<rparr>, st1)
         else ((failure message)\<lparr>r_accountId := Some accountId\<rparr>, st1))"

text \<open>
  \<^verbatim>\<open>launchBrowser\<close>. The result is \<open>Inr\<close> of the object it returns, or \<open>Inl\<close> when the
  promise is rejected, which happens before the \<^verbatim>\<open>try\<close> block if the account's
  \<^verbatim>\<open>fingerprint.json\<close> holds something that has no \<^verbatim>\<open>navigator\<close> key.
\<close>

definition launchBrowser :: "launch_args \<Rightarrow> launch_env \<Rightarrow> state \<Rightarrow> (string + reply) \<times> state" where
  "launchBrowser options env st =
     (let accountId = la_accountId options;
          platformId = la_platformId options;
          proxy = la_proxy options;
          headless = (case la_headless options of None \<Rightarrow> False | Some h \<Rightarrow> h);
          st1 = ensureProfilesDir st
      in if activeBrowsers st1 accountId \<noteq> None then
           (Inr ((reply_of True)\<lparr>r_accountId := Some accountId,
                                  r_message := Some ''Browser already active''\<rparr>),
            console_log (LogAlreadyActive accountId) st1)
         else
           (let (stored, st2) = loadOrCreateFingerprint accountId st1
            in case stored of
                 JCookies _ \<Rightarrow>
                   (Inl ''TypeError: Cannot read properties of undefined (reading 'userAgent')'', st2)
               | JFingerprint fingerprint \<Rightarrow>
                   (let userDataDir = getProfilePath accountId;
                        st3 = ensureDir userDataDir st2;
                        st4 = emit FindFreePort st3;
                        cdpPort = le_cdpPort env;
                        st5 = console_log (LogLaunching accountId
                                (case platformId of
                                   None \<Rightarrow> ''unknown''
                                 | Some p \<Rightarrow> if truthy_string p then p else ''unknown'')) st4;
                        st6 = console_log (LogUserDataDir userDataDir) st5;
                        finalOptions = \<lparr>fin_launch = launchOptions_of headless cdpPort,
                                        fin_context = contextOptions_of fingerprint proxy\<rparr>;
                        st7 = console_log LogLaunchConfig st6;
                        st8 = emit (LaunchPersistentContext userDataDir finalOptions) st7
                    in case le_context env of
                         Inl message \<Rightarrow> apfst Inr (launch_failed accountId message st8)
                       | Inr browserContext \<Rightarrow>
                           (case (case bc_pages browserContext of
                                    p # _ \<Rightarrow> (Inr p, st8)
                                  | [] \<Rightarrow> (le_newPage env, emit NewPage st8)) of
                              (Inl message, st9) \<Rightarrow> apfst Inr (launch_failed accountId message st9)
                            | (Inr page, st9) \<Rightarrow>
                                (let st10 = emit (AddInitScript fingerprint) st9
                                 in case le_addInitScript env of
                                      Some message \<Rightarrow>
                                        apfst Inr (launch_failed accountId message st10)
                                    | None \<Rightarrow>
                                        (let (now, st11) = date_now st10;
                                             st12 = st11\<lparr>activeBrowsers := (activeBrowsers st11)(accountId \<mapsto>
                                                      \<lparr>ses_browserContext = bc_id browserContext,
                                                       ses_page = page,
                                                       ses_fingerprint = fingerprint,
                                                       ses_proxy = proxy,
                                                       ses_platformId = platformId,
                                                       ses_userDataDir = userDataDir,
                                                       ses_launchedAt = now,
                                                       ses_isLoggedIn = None,
                                                       ses_loginDetectedAt = None\<rparr>)\<rparr>;
                                             st13 = console_log (LogLaunched accountId) st12
                                         in (Inr ((reply_of True)\<lparr>r_accountId := Some accountId,
                                                    r_fingerprint := Some fingerprint,
                                                    r_message := Some ''Browser launched successfully''\<rparr>),
                                             st13)))))))"

text \<open>The two files of an account's profile.\<close>

definition fingerprint_file :: "account_id \<Rightarrow> path" where
  "fingerprint_file accountId = path_join (getProfilePath accountId) ''fingerprint.json''"

definition cookies_file :: "account_id \<Rightarrow> path" where
  "cookies_file accountId = path_join (getProfilePath accountId) ''cookies.json''"

text \<open>The exception the \<^verbatim>\<open>try\<close> block of \<^verbatim>\<open>launchBrowser\<close> meets, if any: the first
  of \<^verbatim>\<open>launchPersistentContext\<close>, \<^verbatim>\<open>newPage\<close> (called only when the context has no
  page) and \<^verbatim>\<open>addInitScript\<close> that throws.\<close>

definition launch_exception :: "launch_env \<Rightarrow> string option" where
  "launch_exception env =
     (case le_context env of
        Inl message \<Rightarrow> Some message
      | Inr browserContext \<Rightarrow>
          (case bc_pages browserContext of
             p # _ \<Rightarrow> le_addInitScript env
           | [] \<Rightarrow> (case le_newPage env of
                      Inl message \<Rightarrow> Some message
                    | Inr page \<Rightarrow> le_addInitScript env)))"

subsection \<open>What a run of the challenge loop looks like\<close>

text \<open>
  Of the trace, the three kinds of event the challenge loop is described by: a poll of the
  challenge predicate, a pointer movement, and the fixed wait of 5000 ms.
\<close>

datatype step = Poll | Move | Wait

fun step_of :: "event \<Rightarrow> step list" where
  "step_of PageProbe = [Poll]"
| "step_of (MouseMove x y steps) = [Move]"
| "step_of (Timeout ms) = (if ms = 5000 then [Wait] else [])"
| "step_of e = []"

definition shape :: "event list \<Rightarrow> step list" where
  "shape tr = concat (map step_of tr)"

definition reads_as_challenge :: "string + page_view \<Rightarrow> bool" where
  "reads_as_challenge probe = (case probe of Inl _ \<Rightarrow> False | Inr v \<Rightarrow> looks_like_challenge v)"

text \<open>How many of the next \<open>m\<close> inspections of the page, from the first on and without
  a gap, show a challenge.\<close>

fun leading_challenges :: "(nat \<Rightarrow> string + page_view) \<Rightarrow> nat \<Rightarrow> nat" where
  "leading_challenges ps 0 = 0"
| "leading_challenges ps (Suc m) =
     (if reads_as_challenge (ps 0) then Suc (leading_challenges (\<lambda>i. ps (Suc i)) m) else 0)"

text \<open>
  The loop as the specification words it, for a page that shows a challenge \<open>k\<close> times
  before it clears: a pointer movement at the start; then for each attempt \<open>i\<close> that
  still sees the challenge a poll, a pointer movement if \<open>i\<close> is a multiple of 3, and
  the wait; and a last poll, the one that sees the page clear, unless the attempts are
  used up.
\<close>

definition attempt_shape :: "nat \<Rightarrow> step list" where
  "attempt_shape i = Poll # (if i mod 3 = 0 then [Move] else []) @ [Wait]"

definition challenge_script :: "nat \<Rightarrow> step list" where
  "challenge_script k =
     Move # concat (map attempt_shape [0..<k]) @ (if k < maxAttempts then [Poll] else [])"

subsection \<open>What a login watcher is told, and what the specification expects of it\<close>

text \<open>
  What \<^verbatim>\<open>checkLoginStatus\<close> reports to a tick, for a session with the given platform
  id: \<open>Some b\<close> when the result has \<^verbatim>\<open>success: true\<close> and \<^verbatim>\<open>isLoggedIn\<close> is \<open>b\<close>,
  \<open>None\<close> when the check threw and the result is a failure object.
\<close>

definition login_report :: "string option \<Rightarrow> account_id \<Rightarrow> check_env \<Rightarrow> bool option" where
  "login_report platform accountId env =
     (let platformId = (case platform of
                          None \<Rightarrow> accountId
                        | Some p \<Rightarrow> if truthy_string p then p else accountId)
      in if \<not> ce_hasAdapter env platformId then
           (case ce_cookies env of Inl msg \<Rightarrow> None | Inr cookies \<Rightarrow> Some (length cookies > 5))
         else (case ce_adapter env of Inl msg \<Rightarrow> None | Inr loggedIn \<Rightarrow> Some loggedIn))"

text \<open>The specification's count: a session save for each change of the reported login
  state from false to true, the state before the first report being false or whatever
  \<open>prev\<close> says; a tick without a report changes nothing.\<close>

fun rising_edges :: "bool \<Rightarrow> bool option list \<Rightarrow> nat" where
  "rising_edges prev [] = 0"
| "rising_edges prev (None # rs) = rising_edges prev rs"
| "rising_edges prev (Some b # rs) = (if b \<and> \<not> prev then 1 else 0) + rising_edges b rs"

text \<open>The log lines of a trace, and the part of a trace an operation added.\<close>

fun logs_of :: "event list \<Rightarrow> log_line list" where
  "logs_of [] = []"
| "logs_of (Log l # es) = l # logs_of es"
| "logs_of (e # es) = logs_of es"

definition added :: "state \<Rightarrow> state \<Rightarrow> event list" where
  "added st st' = drop (length (trace st)) (trace st')"

text \<open>What \<^verbatim>\<open>saveSession\<close> adds to the trace for an active session.\<close>

definition save_events :: "account_id \<Rightarrow> string + cookie list \<Rightarrow> event list" where
  "save_events a cr =
     (case cr of
        Inl msg \<Rightarrow> [SaveSession a, ContextCookies]
      | Inr cookies \<Rightarrow> [SaveSession a, ContextCookies,
                        WriteJson (cookies_file a) (JCookies cookies), Log (LogSessionSaved a)])"

subsection \<open>The place a timezone names\<close>

text \<open>
  What the specification means by the location that goes with a timezone. A zone id is
  the name of a city; the location is where that city lies, in degrees of latitude
  (north positive) and longitude (east positive) to four decimals. These are the cities
  of the zones the generator chooses from, written down from the map and not from the
  code, for comparison with what \<^verbatim>\<open>getGeolocationFromTimezone\<close> answers.
\<close>

definition zone_city :: "(string \<times> geolocation) list" where
  "zone_city =
     [(''Asia/Shanghai'', \<lparr>latitude = 31.2304, longitude = 121.4737\<rparr>),
      (''Asia/Hong_Kong'', \<lparr>latitude = 22.3193, longitude = 114.1694\<rparr>),
      (''Asia/Tokyo'', \<lparr>latitude = 35.6762, longitude = 139.6503\<rparr>),
      (''Asia/Singapore'', \<lparr>latitude = 1.3521, longitude = 103.8198\<rparr>),
      (''America/New_York'', \<lparr>latitude = 40.7128, longitude = - 74.006\<rparr>),
      (''America/Los_Angeles'', \<lparr>latitude = 34.0522, longitude = - 118.2437\<rparr>),
      (''Europe/London'', \<lparr>latitude = 51.5074, longitude = - 0.1278\<rparr>)]"


subsection \<open>Every state the module can be in\<close>

text \<open>
  The module starts with both maps empty and no timer. From then on the state changes
  only through the exported operations and through ticks of the timers; the tick of a
  cleared timer is the identity, so a tick is allowed for every timer id.
\<close>

inductive reachable :: "state \<Rightarrow> bool" where
  loaded:
    "activeBrowsers st = Map.empty \<Longrightarrow> loginWatchers st = Map.empty \<Longrightarrow>
     timers st = Map.empty \<Longrightarrow> reachable st"
| launch: "reachable st \<Longrightarrow> reachable (snd (launchBrowser options lenv st))"
| navigate: "reachable st \<Longrightarrow> reachable (snd (navigateTo accountId url noptions goto_throws st))"
| save: "reachable st \<Longrightarrow> reachable (snd (saveSession accountId cookies_result st))"
| close: "reachable st \<Longrightarrow> reachable (snd (closeBrowser accountId saveFirst cenv st))"
| screenshot: "reachable st \<Longrightarrow> reachable (snd (takeScreenshot accountId screenshot_throws st))"
| execute: "reachable st \<Longrightarrow> reachable (snd (executeScript accountId script evaluated st))"
| check: "reachable st \<Longrightarrow> reachable (snd (checkLoginStatus accountId chenv st))"
| start: "reachable st \<Longrightarrow> reachable (startLoginWatcher accountId onLoginDetected st)"
| stop: "reachable st \<Longrightarrow> reachable (stopLoginWatcher accountId st)"
| tick: "reachable st \<Longrightarrow> reachable (loginWatcherTick intervalId tenv st)"

text \<open>The registry and the timers agree: every live timer is the one registered for its
  account, every registered timer is live and belongs to that account, and timer ids not
  yet handed out are not in use.\<close>

definition watchers_consistent :: "state \<Rightarrow> bool" where
  "watchers_consistent st =
     ((\<forall>t w. timers st t = Some w \<longrightarrow> loginWatchers st (w_accountId w) = Some t) \<and>
      (\<forall>a t. loginWatchers st a = Some t \<longrightarrow> (\<exists>w. timers st t = Some w \<and> w_accountId w = a)) \<and>
      (\<forall>t w. timers st t = Some w \<longrightarrow> t < nextTimer st))"

definition watch_part :: "state \<Rightarrow> (account_id \<rightharpoonup> nat) \<times> (nat \<rightharpoonup> watcher) \<times> nat" where
  "watch_part st = (loginWatchers st, timers st, nextTimer st)"

subsection \<open>A concrete world\<close>

text \<open>The module just loaded: both maps empty, no timer, an empty profile directory.
  The random generator always returns 0, the clock starts at 1000 and advances by one at
  each reading, the page cannot be inspected and the mouse never throws.\<close>

definition fresh_state :: state where
  "fresh_state =
     \<lparr>rng = (\<lambda>_. 0), clock = (\<lambda>n. 1000 + n),
      probes = (\<lambda>_. Inl ''page closed''), mouse = (\<lambda>_. False),
      activeBrowsers = Map.empty, loginWatchers = Map.empty, timers = Map.empty,
      nextTimer = 0, files = Map.empty, dirs = {}, trace = []\<rparr>"

text \<open>The same world with one active session, for the account \<open>acct-1\<close> on the platform
  \<open>netease\<close>.\<close>

definition demo_session :: session where
  "demo_session =
     \<lparr>ses_browserContext = 1, ses_page = 1,
      ses_fingerprint = fst (generateFingerprint no_options fresh_state),
      ses_proxy = None, ses_platformId = Some ''netease'',
      ses_userDataDir = getProfilePath ''acct-1'', ses_launchedAt = 1000,
      ses_isLoggedIn = None, ses_loginDetectedAt = None\<rparr>"

definition active_state :: state where
  "active_state = fresh_state\<lparr>activeBrowsers := [''acct-1'' \<mapsto> demo_session]\<rparr>"

text \<open>A world in which the page shows the challenge title at every inspection.\<close>

definition stuck_state :: state where
  "stuck_state =
     fresh_state\<lparr>probes := (\<lambda>_. Inr \<lparr>pv_title = ''Just a moment...'',
                                        pv_url = ''https://example.com/'',
                                        pv_content = []\<rparr>)\<rparr>"

text \<open>The world of \<open>active_state\<close> after \<^verbatim>\<open>startLoginWatcher('acct-1')\<close>, and a
  login check in which the adapter of \<open>netease\<close> reports \<open>b\<close>.\<close>

definition watching_state :: state where
  "watching_state = startLoginWatcher ''acct-1'' False active_state"

definition adapter_says :: "bool \<Rightarrow> tick_env" where
  "adapter_says b =
     \<lparr>te_check = \<lparr>ce_hasAdapter = (\<lambda>p. p = ''netease''), ce_adapter = Inr b,
                  ce_cookies = Inr []\<rparr>,
      te_cookies = Inr [(''NTES_SESS'', ''abc'')]\<rparr>"

text \<open>A watched session launched without a platform id, for an account id that names no
  adapter, so that the login check falls back to counting cookies; and a login check in
  which \<^verbatim>\<open>browserContext.cookies()\<close> throws.\<close>

definition fallback_state :: state where
  "fallback_state =
     startLoginWatcher ''acct-2'' False
       (fresh_state\<lparr>activeBrowsers := [''acct-2'' \<mapsto> demo_session\<lparr>ses_platformId := None\<rparr>]\<rparr>)"

definition cookies_throw :: tick_env where
  "cookies_throw =
     \<lparr>te_check = \<lparr>ce_hasAdapter = (\<lambda>p. p = ''netease''), ce_adapter = Inr False,
                  ce_cookies = Inl ''Target closed''\<rparr>,
      te_cookies = Inr []\<rparr>"



text \<open>
  A first launch for \<open>acct-1\<close> in which \<^verbatim>\<open>launchPersistentContext\<close> throws. The launch
  options name the channel \<^verbatim>\<open>chrome\<close>, so Playwright looks for the installed Google
  Chrome and not for a browser of its own download; on a machine without Google Chrome
  (here a Linux one) its error reads as \<open>missing_chrome_message\<close>. The words
  "Executable doesn't exist at" are those of Playwright's error for a missing download
  of its own, which a launch with a channel never looks for.
\<close>

definition first_launch :: launch_args where
  "first_launch =
     \<lparr>la_accountId = ''acct-1'', la_platformId = None, la_proxy = None, la_headless = None\<rparr>"

definition launch_throws :: "string \<Rightarrow> launch_env" where
  "launch_throws message =
     \<lparr>le_cdpPort = 9222, le_context = Inl message, le_newPage = Inr 1,
      le_addInitScript = None\<rparr>"

definition missing_chrome_message :: string where
  \<open>missing_chrome_message =
     ''browserType.launchPersistentContext: Chromium distribution 'chrome' is not found at /opt/google/chrome/chrome''
     @ [CHR 0x0A] @ ''Run "npx playwright install chrome"''\<close>

section \<open>Properties\<close>

subsection \<open>Operations on a session that does not exist\<close>

text \<open>
  Claim C4. When \<^verbatim>\<open>activeBrowsers\<close> has no entry for the account, \<^verbatim>\<open>closeBrowser\<close>,
  \<^verbatim>\<open>navigateTo\<close>, \<^verbatim>\<open>saveSession\<close>, \<^verbatim>\<open>takeScreenshot\<close> and \<^verbatim>\<open>executeScript\<close> each
  return the failure object whose error is "No active browser for this account", whatever
  the browser would have done, and leave the whole state, the session map included, as
  it was. None of them has a run in which it throws: their results are objects.
\<close>

theorem missing_session_not_found:
  assumes "activeBrowsers st accountId = None"
  shows "closeBrowser accountId saveFirst cenv st = (not_found, st) \<and>
         navigateTo accountId url options goto_throws st = (not_found, st) \<and>
         saveSession accountId cookies_result st = (not_found, st) \<and>
         takeScreenshot accountId screenshot_throws st = (not_found, st) \<and>
         executeScript accountId script evaluated st = (not_found, st) \<and>
         success not_found = False \<and>
         r_error not_found = Some ''No active browser for this account''"
  using assms
  by (simp add: closeBrowser_def navigateTo_def saveSession_def takeScreenshot_def
      executeScript_def not_found_def failure_def reply_of_def)

theorem missing_session_not_found_witness:
  "activeBrowsers fresh_state ''acct-1'' = None \<and>
   closeBrowser ''acct-1'' True \<lparr>cl_cookies = Inr [], cl_close = None\<rparr> fresh_state
     = (not_found, fresh_state) \<and>
   navigateTo ''acct-1'' ''https://mp.163.com'' \<lparr>watchLogin = None\<rparr> None fresh_state
     = (not_found, fresh_state) \<and>
   saveSession ''acct-1'' (Inr []) fresh_state = (not_found, fresh_state) \<and>
   takeScreenshot ''acct-1'' None fresh_state = (not_found, fresh_state) \<and>
   executeScript ''acct-1'' ''1 + 1'' (Inr ''2'') fresh_state = (not_found, fresh_state)"
proof -
  have none: "activeBrowsers fresh_state ''acct-1'' = None"
    by (simp add: fresh_state_def)
  show ?thesis
    using none
      missing_session_not_found [OF none, of True "\<lparr>cl_cookies = Inr [], cl_close = None\<rparr>"
        "''https://mp.163.com''" "\<lparr>watchLogin = None\<rparr>" None "Inr []" None "''1 + 1''" "Inr ''2''"]
    by simp
qed

subsection \<open>What the helpers leave alone\<close>

lemmas helper_defs = emit_def console_log_def ensureDir_def writeJson_def ensureProfilesDir_def

lemma math_random_frame [simp]:
  "probes (snd (math_random st)) = probes st"
  "mouse (snd (math_random st)) = mouse st"
  "activeBrowsers (snd (math_random st)) = activeBrowsers st"
  "loginWatchers (snd (math_random st)) = loginWatchers st"
  "timers (snd (math_random st)) = timers st"
  "nextTimer (snd (math_random st)) = nextTimer st"
  "files (snd (math_random st)) = files st"
  "dirs (snd (math_random st)) = dirs st"
  "trace (snd (math_random st)) = trace st"
  by (simp_all add: math_random_def)

lemma date_now_frame [simp]:
  "probes (snd (date_now st)) = probes st"
  "mouse (snd (date_now st)) = mouse st"
  "activeBrowsers (snd (date_now st)) = activeBrowsers st"
  "loginWatchers (snd (date_now st)) = loginWatchers st"
  "timers (snd (date_now st)) = timers st"
  "nextTimer (snd (date_now st)) = nextTimer st"
  "files (snd (date_now st)) = files st"
  "dirs (snd (date_now st)) = dirs st"
  "trace (snd (date_now st)) = trace st"
  by (simp_all add: date_now_def)

lemma randomChoice_frame [simp]:
  "probes (snd (randomChoice arr st)) = probes st"
  "mouse (snd (randomChoice arr st)) = mouse st"
  "activeBrowsers (snd (randomChoice arr st)) = activeBrowsers st"
  "loginWatchers (snd (randomChoice arr st)) = loginWatchers st"
  "timers (snd (randomChoice arr st)) = timers st"
  "nextTimer (snd (randomChoice arr st)) = nextTimer st"
  "files (snd (randomChoice arr st)) = files st"
  "dirs (snd (randomChoice arr st)) = dirs st"
  "trace (snd (randomChoice arr st)) = trace st"
  by (simp_all add: randomChoice_def case_prod_unfold Let_def)

lemma randomInt_frame [simp]:
  "probes (snd (randomInt lo hi st)) = probes st"
  "mouse (snd (randomInt lo hi st)) = mouse st"
  "activeBrowsers (snd (randomInt lo hi st)) = activeBrowsers st"
  "loginWatchers (snd (randomInt lo hi st)) = loginWatchers st"
  "timers (snd (randomInt lo hi st)) = timers st"
  "nextTimer (snd (randomInt lo hi st)) = nextTimer st"
  "files (snd (randomInt lo hi st)) = files st"
  "dirs (snd (randomInt lo hi st)) = dirs st"
  "trace (snd (randomInt lo hi st)) = trace st"
  by (simp_all add: randomInt_def case_prod_unfold Let_def)

lemma option_or_choice_frame [simp]:
  "probes (snd (option_or_choice opt t arr st)) = probes st"
  "mouse (snd (option_or_choice opt t arr st)) = mouse st"
  "activeBrowsers (snd (option_or_choice opt t arr st)) = activeBrowsers st"
  "loginWatchers (snd (option_or_choice opt t arr st)) = loginWatchers st"
  "timers (snd (option_or_choice opt t arr st)) = timers st"
  "nextTimer (snd (option_or_choice opt t arr st)) = nextTimer st"
  "files (snd (option_or_choice opt t arr st)) = files st"
  "dirs (snd (option_or_choice opt t arr st)) = dirs st"
  "trace (snd (option_or_choice opt t arr st)) = trace st"
  by (simp_all add: option_or_choice_def split: option.splits)

lemma generateCanvasNoise_frame [simp]:
  "probes (snd (generateCanvasNoise st)) = probes st"
  "mouse (snd (generateCanvasNoise st)) = mouse st"
  "activeBrowsers (snd (generateCanvasNoise st)) = activeBrowsers st"
  "loginWatchers (snd (generateCanvasNoise st)) = loginWatchers st"
  "timers (snd (generateCanvasNoise st)) = timers st"
  "nextTimer (snd (generateCanvasNoise st)) = nextTimer st"
  "files (snd (generateCanvasNoise st)) = files st"
  "dirs (snd (generateCanvasNoise st)) = dirs st"
  "trace (snd (generateCanvasNoise st)) = trace st"
  by (simp_all add: generateCanvasNoise_def case_prod_unfold Let_def)

lemma generateFingerprint_frame [simp]:
  "probes (snd (generateFingerprint opts st)) = probes st"
  "mouse (snd (generateFingerprint opts st)) = mouse st"
  "activeBrowsers (snd (generateFingerprint opts st)) = activeBrowsers st"
  "loginWatchers (snd (generateFingerprint opts st)) = loginWatchers st"
  "timers (snd (generateFingerprint opts st)) = timers st"
  "nextTimer (snd (generateFingerprint opts st)) = nextTimer st"
  "files (snd (generateFingerprint opts st)) = files st"
  "dirs (snd (generateFingerprint opts st)) = dirs st"
  "trace (snd (generateFingerprint opts st)) = trace st"
  by (simp_all add: generateFingerprint_def case_prod_unfold Let_def)

text \<open>The generator reads the random numbers and the clock, never the trace.\<close>

lemma math_random_emit:
  "math_random (emit e st) = (fst (math_random st), emit e (snd (math_random st)))"
  by (simp add: math_random_def emit_def)

lemma date_now_emit:
  "date_now (emit e st) = (fst (date_now st), emit e (snd (date_now st)))"
  by (simp add: date_now_def emit_def)

lemma randomChoice_emit:
  "randomChoice arr (emit e st) = (fst (randomChoice arr st), emit e (snd (randomChoice arr st)))"
  by (simp add: randomChoice_def math_random_emit case_prod_unfold Let_def)

lemma randomInt_emit:
  "randomInt lo hi (emit e st) = (fst (randomInt lo hi st), emit e (snd (randomInt lo hi st)))"
  by (simp add: randomInt_def math_random_emit case_prod_unfold Let_def)

lemma option_or_choice_emit:
  "option_or_choice opt t arr (emit e st) =
     (fst (option_or_choice opt t arr st), emit e (snd (option_or_choice opt t arr st)))"
  by (simp add: option_or_choice_def randomChoice_emit split: option.splits)

lemma generateCanvasNoise_emit:
  "generateCanvasNoise (emit e st) =
     (fst (generateCanvasNoise st), emit e (snd (generateCanvasNoise st)))"
  by (simp add: generateCanvasNoise_def randomInt_emit math_random_emit case_prod_unfold Let_def)

lemma generateFingerprint_emit:
  "generateFingerprint opts (emit e st) =
     (fst (generateFingerprint opts st), emit e (snd (generateFingerprint opts st)))"
  by (simp add: generateFingerprint_def option_or_choice_emit randomChoice_emit randomInt_emit
      generateCanvasNoise_emit date_now_emit case_prod_unfold Let_def)

subsection \<open>Loading or creating a fingerprint\<close>

lemma loadOrCreate_frame [simp]:
  "probes (snd (loadOrCreateFingerprint a st)) = probes st"
  "mouse (snd (loadOrCreateFingerprint a st)) = mouse st"
  "activeBrowsers (snd (loadOrCreateFingerprint a st)) = activeBrowsers st"
  "loginWatchers (snd (loadOrCreateFingerprint a st)) = loginWatchers st"
  "timers (snd (loadOrCreateFingerprint a st)) = timers st"
  "nextTimer (snd (loadOrCreateFingerprint a st)) = nextTimer st"
  by (simp_all add: loadOrCreateFingerprint_def Let_def helper_defs case_prod_unfold split: option.splits)

lemma loadOrCreate_existing:
  assumes "files st (fingerprint_file a) = Some stored"
  shows "loadOrCreateFingerprint a st =
           (stored, st\<lparr>trace := trace st @ [PathExists (fingerprint_file a),
                                              ReadJson (fingerprint_file a)]\<rparr>)"
  using assms
  by (simp add: loadOrCreateFingerprint_def Let_def helper_defs fingerprint_file_def)

lemma loadOrCreate_fresh:
  assumes "files st (fingerprint_file a) = None"
  shows "loadOrCreateFingerprint a st =
          (JFingerprint (fst (generateFingerprint no_options st)),
           (snd (generateFingerprint no_options st))
             \<lparr>files := (files st)(fingerprint_file a \<mapsto>
                          JFingerprint (fst (generateFingerprint no_options st))),
              dirs := insert (getProfilePath a) (dirs st),
              trace := trace st @
                [PathExists (fingerprint_file a), EnsureDir (getProfilePath a),
                 WriteJson (fingerprint_file a)
                   (JFingerprint (fst (generateFingerprint no_options st)))]\<rparr>)"
proof -
  have none: "files (emit (PathExists (fingerprint_file a)) st) (fingerprint_file a) = None"
    using assms by (simp add: emit_def)
  show ?thesis
    unfolding loadOrCreateFingerprint_def fingerprint_file_def [symmetric] Let_def
    by (simp add: none generateFingerprint_emit ensureDir_def writeJson_def)
       (simp add: emit_def)
qed

text \<open>
  Claim C3. \<^verbatim>\<open>loadOrCreateFingerprint\<close> returns the document stored in the account's
  \<^verbatim>\<open>fingerprint.json\<close> when there is one, and then neither writes a file nor draws a
  random number nor reads the clock; when there is none it returns the fingerprint
  \<^verbatim>\<open>generateFingerprint()\<close> makes and stores exactly that one. In both cases a second
  call, made in the state the first one left, returns what the first returned and
  again leaves files, random generator and clock alone.
\<close>

theorem loadOrCreateFingerprint_idempotent:
  "fst (loadOrCreateFingerprint a st) =
     (case files st (fingerprint_file a) of
        Some stored \<Rightarrow> stored
      | None \<Rightarrow> JFingerprint (fst (generateFingerprint no_options st))) \<and>
   files (snd (loadOrCreateFingerprint a st)) =
     (case files st (fingerprint_file a) of
        Some stored \<Rightarrow> files st
      | None \<Rightarrow> (files st)(fingerprint_file a \<mapsto> fst (loadOrCreateFingerprint a st))) \<and>
   rng (snd (loadOrCreateFingerprint a st)) =
     (case files st (fingerprint_file a) of
        Some stored \<Rightarrow> rng st
      | None \<Rightarrow> rng (snd (generateFingerprint no_options st))) \<and>
   clock (snd (loadOrCreateFingerprint a st)) =
     (case files st (fingerprint_file a) of
        Some stored \<Rightarrow> clock st
      | None \<Rightarrow> clock (snd (generateFingerprint no_options st))) \<and>
   files (snd (loadOrCreateFingerprint a st)) (fingerprint_file a) =
     Some (fst (loadOrCreateFingerprint a st)) \<and>
   fst (loadOrCreateFingerprint a (snd (loadOrCreateFingerprint a st))) =
     fst (loadOrCreateFingerprint a st) \<and>
   files (snd (loadOrCreateFingerprint a (snd (loadOrCreateFingerprint a st)))) =
     files (snd (loadOrCreateFingerprint a st)) \<and>
   rng (snd (loadOrCreateFingerprint a (snd (loadOrCreateFingerprint a st)))) =
     rng (snd (loadOrCreateFingerprint a st)) \<and>
   clock (snd (loadOrCreateFingerprint a (snd (loadOrCreateFingerprint a st)))) =
     clock (snd (loadOrCreateFingerprint a st))"
proof -
  define st1 where "st1 = snd (loadOrCreateFingerprint a st)"
  have first:
    "fst (loadOrCreateFingerprint a st) =
       (case files st (fingerprint_file a) of
          Some stored \<Rightarrow> stored
        | None \<Rightarrow> JFingerprint (fst (generateFingerprint no_options st)))"
    "files st1 =
       (case files st (fingerprint_file a) of
          Some stored \<Rightarrow> files st
        | None \<Rightarrow> (files st)(fingerprint_file a \<mapsto> fst (loadOrCreateFingerprint a st)))"
    "rng st1 =
       (case files st (fingerprint_file a) of
          Some stored \<Rightarrow> rng st
        | None \<Rightarrow> rng (snd (generateFingerprint no_options st)))"
    "clock st1 =
       (case files st (fingerprint_file a) of
          Some stored \<Rightarrow> clock st
        | None \<Rightarrow> clock (snd (generateFingerprint no_options st)))"
    unfolding st1_def
    by (cases "files st (fingerprint_file a)";
        simp add: loadOrCreate_existing loadOrCreate_fresh)+
  have stored: "files st1 (fingerprint_file a) = Some (fst (loadOrCreateFingerprint a st))"
    unfolding first(2) by (cases "files st (fingerprint_file a)") (simp_all add: first(1))
  have second:
    "loadOrCreateFingerprint a st1 =
       (fst (loadOrCreateFingerprint a st),
        st1\<lparr>trace := trace st1 @ [PathExists (fingerprint_file a),
                                   ReadJson (fingerprint_file a)]\<rparr>)"
    by (rule loadOrCreate_existing [OF stored])
  show ?thesis
    using first stored second unfolding st1_def [symmetric] by simp
qed

subsection \<open>Launching\<close>

text \<open>
  Claim C2. When \<^verbatim>\<open>activeBrowsers\<close> already has an entry for the account,
  \<^verbatim>\<open>launchBrowser\<close> returns the success object with the message "Browser already
  active" and creates nothing: the session map, the watchers and the timers are as
  before; no file is read or written and no random number is drawn, so no fingerprint is
  loaded or generated; the only directory it makes sure of is the common
  \<^verbatim>\<open>profiles\<close> directory, not a profile of the account; and all it adds to the trace is
  that \<^verbatim>\<open>ensureDir\<close> call and one log line, so no browser context is opened.
\<close>

theorem launch_existing_session_is_reused:
  assumes "activeBrowsers st (la_accountId options) \<noteq> None"
  shows "fst (launchBrowser options env st) =
           Inr ((reply_of True)\<lparr>r_accountId := Some (la_accountId options),
                                  r_message := Some ''Browser already active''\<rparr>) \<and>
         activeBrowsers (snd (launchBrowser options env st)) = activeBrowsers st \<and>
         loginWatchers (snd (launchBrowser options env st)) = loginWatchers st \<and>
         timers (snd (launchBrowser options env st)) = timers st \<and>
         files (snd (launchBrowser options env st)) = files st \<and>
         rng (snd (launchBrowser options env st)) = rng st \<and>
         clock (snd (launchBrowser options env st)) = clock st \<and>
         dirs (snd (launchBrowser options env st)) = insert PROFILES_DIR (dirs st) \<and>
         trace (snd (launchBrowser options env st)) =
           trace st @ [EnsureDir PROFILES_DIR, Log (LogAlreadyActive (la_accountId options))]"
  using assms by (simp add: launchBrowser_def Let_def helper_defs)

theorem launch_existing_session_is_reused_witness:
  "activeBrowsers active_state ''acct-1'' \<noteq> None \<and>
   fst (launchBrowser
          \<lparr>la_accountId = ''acct-1'', la_platformId = Some ''netease'', la_proxy = None,
           la_headless = None\<rparr>
          \<lparr>le_cdpPort = 9222, le_context = Inr \<lparr>bc_id = 2, bc_pages = [2]\<rparr>,
           le_newPage = Inr 3, le_addInitScript = None\<rparr> active_state) =
     Inr ((reply_of True)\<lparr>r_accountId := Some ''acct-1'',
                            r_message := Some ''Browser already active''\<rparr>) \<and>
   activeBrowsers (snd (launchBrowser
          \<lparr>la_accountId = ''acct-1'', la_platformId = Some ''netease'', la_proxy = None,
           la_headless = None\<rparr>
          \<lparr>le_cdpPort = 9222, le_context = Inr \<lparr>bc_id = 2, bc_pages = [2]\<rparr>,
           le_newPage = Inr 3, le_addInitScript = None\<rparr> active_state)) =
     [''acct-1'' \<mapsto> demo_session]"
proof -
  have active: "activeBrowsers active_state
                  (la_accountId \<lparr>la_accountId = ''acct-1'', la_platformId = Some ''netease'',
                                 la_proxy = None, la_headless = None\<rparr>) \<noteq> None"
    by (simp add: active_state_def)
  show ?thesis
    using active
      launch_existing_session_is_reused [OF active,
        of "\<lparr>le_cdpPort = 9222, le_context = Inr \<lparr>bc_id = 2, bc_pages = [2]\<rparr>,
             le_newPage = Inr 3, le_addInitScript = None\<rparr>"]
    by (simp add: active_state_def)
qed

lemma launch_failed_result [simp]:
  "activeBrowsers (snd (launch_failed a m st)) = activeBrowsers st"
  "fst (launch_failed a m st) =
     (failure (if str_includes m ''Executable doesn't exist''
               then ''Chrome not installed. Please install Google Chrome.'' else m))
       \<lparr>r_accountId := Some a\<rparr>"
  by (simp_all add: launch_failed_def Let_def helper_defs)

lemma launch_keeps_sessions_on_failure:
  assumes "activeBrowsers st (la_accountId options) = None"
      and "launch_exception env = Some message"
  shows "activeBrowsers (snd (launchBrowser options env st)) = activeBrowsers st"
  using assms
  by (auto simp add: launchBrowser_def launch_exception_def Let_def helper_defs case_prod_unfold
      split: sum.splits list.splits option.splits json.splits)

lemma launch_reports_failure:
  assumes "activeBrowsers st (la_accountId options) = None"
      and "launch_exception env = Some message"
      and "fst (loadOrCreateFingerprint (la_accountId options) (ensureProfilesDir st))
             = JFingerprint fp"
  shows "fst (launchBrowser options env st) =
     Inr ((failure (if str_includes message ''Executable doesn't exist''
                    then ''Chrome not installed. Please install Google Chrome.''
                    else message))\<lparr>r_accountId := Some (la_accountId options)\<rparr>)"
  using assms
  by (auto simp add: launchBrowser_def launch_exception_def Let_def helper_defs case_prod_unfold
      split: sum.splits list.splits option.splits json.splits)

lemma loads_a_fingerprint:
  assumes "\<And>cs. files st (fingerprint_file a) \<noteq> Some (JCookies cs)"
  shows "\<exists>fp. fst (loadOrCreateFingerprint a (ensureProfilesDir st)) = JFingerprint fp"
proof (cases "files st (fingerprint_file a)")
  case None
  then have "files (ensureProfilesDir st) (fingerprint_file a) = None"
    by (simp add: helper_defs)
  then show ?thesis by (simp add: loadOrCreate_fresh)
next
  case (Some stored)
  then have stored: "files (ensureProfilesDir st) (fingerprint_file a) = Some stored"
    by (simp add: helper_defs)
  from Some assms obtain fp where "stored = JFingerprint fp"
    by (cases stored) auto
  with stored show ?thesis by (simp add: loadOrCreate_existing)
qed

lemma launch_exception_result:
  assumes "activeBrowsers st (la_accountId options) = None"
      and "launch_exception env = Some message"
      and "\<And>cs. files st (fingerprint_file (la_accountId options)) \<noteq> Some (JCookies cs)"
  shows "fst (launchBrowser options env st) =
           Inr ((reply_of False)
                  \<lparr>r_error := Some (if str_includes message ''Executable doesn't exist''
                                     then ''Chrome not installed. Please install Google Chrome.''
                                     else message),
                   r_accountId := Some (la_accountId options)\<rparr>) \<and>
         activeBrowsers (snd (launchBrowser options env st)) = activeBrowsers st"
proof -
  from loads_a_fingerprint [of st "la_accountId options"] assms(3)
  obtain fp where
    "fst (loadOrCreateFingerprint (la_accountId options) (ensureProfilesDir st)) = JFingerprint fp"
    by blast
  from launch_reports_failure [OF assms(1) assms(2) this]
       launch_keeps_sessions_on_failure [OF assms(1) assms(2)]
  show ?thesis by (simp add: failure_def)
qed

lemma first_launch_throws:
  "fst (launchBrowser first_launch (launch_throws message) fresh_state) =
     Inr ((reply_of False)
            \<lparr>r_error := Some (if str_includes message ''Executable doesn't exist''
                               then ''Chrome not installed. Please install Google Chrome.''
                               else message),
             r_accountId := Some ''acct-1''\<rparr>) \<and>
   activeBrowsers (snd (launchBrowser first_launch (launch_throws message) fresh_state)) = Map.empty"
proof -
  have none: "activeBrowsers fresh_state (la_accountId first_launch) = None"
    by (simp add: fresh_state_def)
  have exn: "launch_exception (launch_throws message) = Some message"
    by (simp add: launch_exception_def launch_throws_def)
  have nofile: "files fresh_state (fingerprint_file (la_accountId first_launch)) \<noteq> Some (JCookies cs)"
    for cs by (simp add: fresh_state_def)
  show ?thesis
    using launch_exception_result [OF none exn nofile]
    by (simp add: fresh_state_def first_launch_def)
qed

text \<open>
  Claim C8. The claim asks that a launch which fails because the browser executable is
  missing be answered with the specific error "Chrome not installed. Please install
  Google Chrome.", apart from every other launch failure, and that no session be
  created. The \<^verbatim>\<open>catch\<close> block gives that error only to an exception whose message
  contains "Executable doesn't exist". The launch asks for the channel \<^verbatim>\<open>chrome\<close>,
  and the error of a missing Google Chrome does not contain those words: on the first
  launch for \<open>acct-1\<close> on a machine without Google Chrome the result is the failure
  object carrying Playwright's own message, which is how any other exception (here
  "Target closed") is answered too, and the fixed error is not returned. The session map
  stays empty, as the claim says.
\<close>

theorem missing_chrome_is_not_recognised:
  "\<not> str_includes missing_chrome_message ''Executable doesn't exist'' \<and>
   fst (launchBrowser first_launch (launch_throws missing_chrome_message) fresh_state) =
     Inr ((reply_of False)\<lparr>r_error := Some missing_chrome_message,
                            r_accountId := Some ''acct-1''\<rparr>) \<and>
   missing_chrome_message \<noteq> ''Chrome not installed. Please install Google Chrome.'' \<and>
   fst (launchBrowser first_launch (launch_throws ''Target closed'') fresh_state) =
     Inr ((reply_of False)\<lparr>r_error := Some ''Target closed'',
                            r_accountId := Some ''acct-1''\<rparr>) \<and>
   activeBrowsers (snd (launchBrowser first_launch (launch_throws missing_chrome_message)
     fresh_state)) = Map.empty"
proof -
  have unmarked: "\<not> str_includes missing_chrome_message ''Executable doesn't exist''"
    by code_simp
  have other: "\<not> str_includes ''Target closed'' ''Executable doesn't exist''"
    by code_simp
  have differs: "missing_chrome_message \<noteq> ''Chrome not installed. Please install Google Chrome.''"
    by code_simp
  show ?thesis
    using first_launch_throws [of missing_chrome_message] first_launch_throws [of "''Target closed''"]
      unmarked other differs
    by simp
qed

subsection \<open>Consistency of a generated fingerprint\<close>











lemma zone_city_keys: "map fst zone_city = TIMEZONES"
  by (simp add: zone_city_def TIMEZONES_def)







subsection \<open>The challenge loop\<close>

lemma shape_append [simp]: "shape (a @ b) = shape a @ shape b"
  by (simp add: shape_def)

lemma shape_emit [simp]: "shape (trace (emit e st)) = shape (trace st) @ step_of e"
  by (simp add: emit_def shape_def)

lemma shape_console_log [simp]: "shape (trace (console_log l st)) = shape (trace st)"
  by (simp add: console_log_def)

lemma probes_emit [simp]: "probes (emit e st) = probes st"
  by (simp add: emit_def)

lemma probes_console_log [simp]: "probes (console_log l st) = probes st"
  by (simp add: console_log_def)

lemma humanDelay_challenge [simp]:
  "probes (humanDelay lo hi st) = probes st"
  "shape (trace (humanDelay lo hi st)) = shape (trace st)"
  by (simp_all add: humanDelay_def case_prod_unfold Let_def)

lemma simulateHumanBehavior_challenge [simp]:
  "probes (simulateHumanBehavior st) = probes st"
  "shape (trace (simulateHumanBehavior st)) = shape (trace st) @ [Move]"
  by (simp_all add: simulateHumanBehavior_def case_prod_unfold Let_def)

lemma isCloudflareChallenge_challenge [simp]:
  "fst (isCloudflareChallenge st) = reads_as_challenge (probes st 0)"
  "probes (snd (isCloudflareChallenge st)) = (\<lambda>i. probes st (Suc i))"
  "shape (trace (snd (isCloudflareChallenge st))) = shape (trace st) @ [Poll]"
  by (simp_all add: isCloudflareChallenge_def reads_as_challenge_def Let_def emit_def shape_def)

lemma challenge_loop_shape:
  "n \<le> maxAttempts \<Longrightarrow>
   fst (challenge_loop n st) = (n + leading_challenges (probes st) (maxAttempts - n) < maxAttempts) \<and>
   shape (trace (snd (challenge_loop n st))) =
     shape (trace st) @ concat (map attempt_shape [n..<n + leading_challenges (probes st) (maxAttempts - n)])
       @ (if n + leading_challenges (probes st) (maxAttempts - n) < maxAttempts then [Poll] else [])"
proof (induction n st rule: challenge_loop.induct)
  case (1 attempts st)
  show ?case
  proof (cases "attempts < maxAttempts")
    case False
    with 1 show ?thesis by (simp add: challenge_loop.simps)
  next
    case True
    then obtain m where m: "maxAttempts - attempts = Suc m" "maxAttempts - (attempts + 1) = m"
      by (metis Suc_diff_Suc Suc_eq_plus1 diff_diff_left)
    show ?thesis
    proof (cases "reads_as_challenge (probes st 0)")
      case False
      with True m show ?thesis
        by (simp add: challenge_loop.simps [of attempts st] case_prod_unfold)
    next
      case still: True
      let ?st1 = "snd (isCloudflareChallenge st)"
      let ?st2 = "if attempts mod 3 = 0 then simulateHumanBehavior ?st1 else ?st1"
      let ?st4 = "console_log (LogCfWaiting (attempts + 1) maxAttempts) (emit (Timeout 5000) ?st2)"
      have loop: "challenge_loop attempts st = challenge_loop (attempts + 1) ?st4"
        using True still by (simp add: challenge_loop.simps [of attempts st] case_prod_unfold Let_def)
      have IH: "fst (challenge_loop (attempts + 1) ?st4) =
                  (attempts + 1 + leading_challenges (probes ?st4) (maxAttempts - (attempts + 1)) < maxAttempts) \<and>
                shape (trace (snd (challenge_loop (attempts + 1) ?st4))) =
                  shape (trace ?st4) @ concat (map attempt_shape [attempts + 1..<attempts + 1 + leading_challenges (probes ?st4) (maxAttempts - (attempts + 1))])
                  @ (if attempts + 1 + leading_challenges (probes ?st4) (maxAttempts - (attempts + 1)) < maxAttempts then [Poll] else [])"
      proof -
        have nn: "\<not> \<not> fst (isCloudflareChallenge st)" using still by simp
        have le: "attempts + 1 \<le> maxAttempts" using True by simp
        show ?thesis
          by (rule "1.IH" [OF True refl prod.collapse nn refl refl refl le])
      qed
      have probes4: "probes ?st4 = (\<lambda>i. probes st (Suc i))" by simp
      have shape4: "shape (trace ?st4) = shape (trace st) @ attempt_shape attempts"
        by (simp add: attempt_shape_def)
      have upt: "[attempts..<attempts + Suc j] = attempts # [attempts + 1..<attempts + 1 + j]" for j
        by (simp add: upt_conv_Cons del: upt_Suc)
      have lead: "leading_challenges (probes st) (maxAttempts - attempts) = Suc (leading_challenges (probes ?st4) m)"
        using still m by (simp add: probes4)
      show ?thesis
        unfolding loop lead upt using IH m(2) shape4 probes4
        by (simp del: upt_Suc)
    qed
  qed
qed

lemma leading_challenges_le: "leading_challenges ps m \<le> m"
  by (induction m arbitrary: ps) auto

lemma count_polls: "count_list (concat (map attempt_shape [0..<k])) Poll = k"
  by (induction k) (auto simp: attempt_shape_def)

lemma count_waits: "count_list (concat (map attempt_shape [0..<k])) Wait = k"
  by (induction k) (auto simp: attempt_shape_def)

lemma count_moves: "count_list (concat (map attempt_shape [0..<k])) Move = (k + 2) div 3"
proof (induction k)
  case 0
  show ?case by simp
next
  case (Suc k)
  have "(Suc k + 2) div 3 = (k + 2) div 3 + (if k mod 3 = 0 then 1 else 0)"
    by presburger
  with Suc show ?case by (auto simp: attempt_shape_def)
qed

text \<open>
  Claim C6. Let \<open>k\<close> be the number of times the page shows the challenge, without a
  gap, in its next 12 inspections. \<^verbatim>\<open>handleCloudflareChallenge\<close> returns true exactly
  when \<open>k < 12\<close>, that is as soon as an inspection finds the page clear, and false when
  all 12 attempts saw the challenge. Its polls, pointer movements and 5000 ms waits are,
  in this order: one movement; for each attempt \<open>i < k\<close> a poll, a movement if \<open>i\<close> is a
  multiple of 3, and the wait; and, if \<open>k < 12\<close>, the poll that finds the page clear. So
  there are \<open>min (k + 1) 12\<close> polls, never more than 12, and one wait of 5000 ms after
  each poll that saw the challenge.
\<close>

theorem challenge_wait_is_bounded:
  "maxAttempts = 12 \<and>
   (let k = leading_challenges (probes st) maxAttempts;
        steps = challenge_script k
    in fst (handleCloudflareChallenge st) = (k < maxAttempts) \<and>
       shape (trace (snd (handleCloudflareChallenge st))) = shape (trace st) @ steps \<and>
       count_list steps Poll = min (Suc k) maxAttempts \<and>
       count_list steps Poll \<le> 12 \<and>
       count_list steps Wait = k \<and>
       count_list steps Move = 1 + (k + 2) div 3)"
proof -
  let ?st0 = "simulateHumanBehavior (console_log LogCfDetected st)"
  let ?k = "leading_challenges (probes st) maxAttempts"
  have k: "?k \<le> maxAttempts"
    by (rule leading_challenges_le)
  have loop:
    "fst (challenge_loop 0 ?st0) = (?k < maxAttempts)"
    "shape (trace (snd (challenge_loop 0 ?st0))) =
       shape (trace st) @ challenge_script ?k"
    using challenge_loop_shape [of 0 ?st0]
    by (simp_all add: challenge_script_def)
  have polls: "count_list (challenge_script ?k) Poll = min (Suc ?k) maxAttempts"
    using k by (simp add: challenge_script_def count_polls)
  have waits: "count_list (challenge_script ?k) Wait = ?k"
    by (simp add: challenge_script_def count_waits)
  have moves: "count_list (challenge_script ?k) Move = 1 + (?k + 2) div 3"
    by (simp add: challenge_script_def count_moves)
  have bound: "count_list (challenge_script ?k) Poll \<le> 12"
    unfolding polls by (simp add: maxAttempts_def)
  show ?thesis
    unfolding Let_def handleCloudflareChallenge_def
    using loop polls waits moves bound by (simp add: maxAttempts_def)
qed

theorem challenge_wait_is_bounded_witness:
  "leading_challenges (probes stuck_state) maxAttempts = 12 \<and>
   fst (handleCloudflareChallenge stuck_state) = False \<and>
   count_list (shape (trace (snd (handleCloudflareChallenge stuck_state)))) Poll = 12 \<and>
   count_list (shape (trace (snd (handleCloudflareChallenge stuck_state)))) Wait = 12 \<and>
   count_list (shape (trace (snd (handleCloudflareChallenge stuck_state)))) Move = 5 \<and>
   leading_challenges (probes fresh_state) maxAttempts = 0 \<and>
   fst (handleCloudflareChallenge fresh_state) = True \<and>
   shape (trace (snd (handleCloudflareChallenge fresh_state))) = [Move, Poll]"
proof -
  have stuck: "leading_challenges (probes stuck_state) maxAttempts = 12"
    by code_simp
  have clear: "leading_challenges (probes fresh_state) maxAttempts = 0"
    by code_simp
  have empty: "shape (trace stuck_state) = []" "shape (trace fresh_state) = []"
    by (simp_all add: stuck_state_def fresh_state_def shape_def)
  have limit: "(12 < maxAttempts) = False" "(0 < maxAttempts) = True"
    by (simp_all add: maxAttempts_def)
  have scripts:
    "count_list (challenge_script 12) Poll = 12"
    "count_list (challenge_script 12) Wait = 12"
    "count_list (challenge_script 12) Move = 5"
    "challenge_script 0 = [Move, Poll]"
    by code_simp+
  have run_stuck:
    "fst (handleCloudflareChallenge stuck_state) = (12 < maxAttempts)"
    "shape (trace (snd (handleCloudflareChallenge stuck_state))) = challenge_script 12"
    using challenge_wait_is_bounded [of stuck_state]
    unfolding Let_def stuck empty by simp_all
  have run_clear:
    "fst (handleCloudflareChallenge fresh_state) = (0 < maxAttempts)"
    "shape (trace (snd (handleCloudflareChallenge fresh_state))) = challenge_script 0"
    using challenge_wait_is_bounded [of fresh_state]
    unfolding Let_def clear empty by simp_all
  show ?thesis
    unfolding run_stuck run_clear limit scripts stuck clear by simp
qed

subsection \<open>One tick of a login watcher\<close>

lemma logs_of_append [simp]: "logs_of (xs @ ys) = logs_of xs @ logs_of ys"
  by (induction xs rule: logs_of.induct) simp_all

lemma checkLoginStatus_report:
  assumes "activeBrowsers st a = Some s"
  shows "r_isLoggedIn (fst (checkLoginStatus a env st)) = login_report (ses_platformId s) a env"
    and "success (fst (checkLoginStatus a env st)) = (login_report (ses_platformId s) a env \<noteq> None)"
  using assms
  by (auto simp add: checkLoginStatus_def login_report_def Let_def reply_of_def failure_def
      split: option.splits sum.splits)

lemma checkLoginStatus_state:
  assumes "activeBrowsers st a = Some s"
  shows "\<exists>e. snd (checkLoginStatus a env st) = st\<lparr>trace := trace st @ [CheckLoginStatus a, e]\<rparr>
           \<and> (e = ContextCookies \<or> (\<exists>p. e = AdapterCheckLogin p))"
  using assms
  by (auto simp add: checkLoginStatus_def Let_def emit_def split: option.splits sum.splits)

lemma saveSession_state:
  assumes "activeBrowsers st a = Some s"
  shows "snd (saveSession a cr st) =
           st\<lparr>files := (case cr of Inl msg \<Rightarrow> files st
                         | Inr cookies \<Rightarrow> (files st)(cookies_file a \<mapsto> JCookies cookies)),
              trace := trace st @ save_events a cr\<rparr>"
  using assms
  by (simp add: saveSession_def saveCookies_def cookies_file_def save_events_def Let_def helper_defs split: sum.splits)

lemma tick_head:
  assumes live: "timers st t = Some w"
      and ses: "activeBrowsers st (w_accountId w) = Some s"
      and count: "w_checkCount w < maxChecks"
  shows "loginWatcherTick t env st =
      (let a = w_accountId w;
           r = login_report (ses_platformId s) a (te_check env);
           st2 = snd (checkLoginStatus a (te_check env) (st\<lparr>timers := (timers st)(t \<mapsto> w\<lparr>w_checkCount := w_checkCount w + 1\<rparr>)\<rparr>)) in
       if r = Some True \<and> \<not> w_wasLoggedIn w then
         (let st3 = console_log (LogLoginDetected a) st2;
              st4 = set_watcher t (\<lambda>w. w\<lparr>w_wasLoggedIn := True\<rparr>) st3;
              st5 = snd (saveSession a (te_cookies env) st4);
              st6 = console_log (LogSessionAutoSaved a) st5;
              st7 = set_session a (\<lambda>s. s\<lparr>ses_isLoggedIn := Some True\<rparr>) st6;
              st9 = set_session a (\<lambda>s. s\<lparr>ses_loginDetectedAt := Some (fst (date_now st7))\<rparr>) (snd (date_now st7))
          in if w_onLoginDetected w then emit (OnLoginDetected a) st9 else st9)
       else if r = Some False \<and> w_wasLoggedIn w then
         (let st3 = console_log (LogLogoutDetected a) st2;
              st4 = set_watcher t (\<lambda>w. w\<lparr>w_wasLoggedIn := False\<rparr>) st3
          in set_session a (\<lambda>s. s\<lparr>ses_isLoggedIn := Some False\<rparr>) st4)
       else st2)"
proof -
  let ?a = "w_accountId w"
  let ?st1 = "st\<lparr>timers := (timers st)(t \<mapsto> w\<lparr>w_checkCount := w_checkCount w + 1\<rparr>)\<rparr>"
  let ?r = "login_report (ses_platformId s) ?a (te_check env)"
  have s1: "activeBrowsers ?st1 ?a = Some s" using ses by simp
  note rep = checkLoginStatus_report [OF s1, of "te_check env"]
  have start: "set_watcher t (\<lambda>x. x\<lparr>w_checkCount := w_checkCount w + 1\<rparr>) st = ?st1"
    using live by (simp add: set_watcher_def)
  have nomax: "\<not> w_checkCount w + 1 > maxChecks" using count by simp
  have conds:
    "(success (fst (checkLoginStatus ?a (te_check env) ?st1)) \<and>
      r_isLoggedIn (fst (checkLoginStatus ?a (te_check env) ?st1)) = Some True \<and> \<not> w_wasLoggedIn w)
      = (?r = Some True \<and> \<not> w_wasLoggedIn w)"
    "(success (fst (checkLoginStatus ?a (te_check env) ?st1)) \<and>
      r_isLoggedIn (fst (checkLoginStatus ?a (te_check env) ?st1)) \<noteq> Some True \<and> w_wasLoggedIn w)
      = (?r = Some False \<and> w_wasLoggedIn w)"
    unfolding rep by auto
  show ?thesis
    unfolding loginWatcherTick_def live option.case Let_def start if_not_P [OF nomax] s1
      case_prod_unfold conds
    by (rule refl)
qed

lemma tick_quiet:
  assumes live: "timers st t = Some w"
      and ses: "activeBrowsers st (w_accountId w) = Some s"
      and count: "w_checkCount w < maxChecks"
      and noup: "\<not> (login_report (ses_platformId s) (w_accountId w) (te_check env) = Some True \<and> \<not> w_wasLoggedIn w)"
      and nodown: "\<not> (login_report (ses_platformId s) (w_accountId w) (te_check env) = Some False \<and> w_wasLoggedIn w)"
  shows "\<exists>e. (e = ContextCookies \<or> (\<exists>p. e = AdapterCheckLogin p)) \<and>
          loginWatcherTick t env st =
            st\<lparr>timers := (timers st)(t \<mapsto> w\<lparr>w_checkCount := w_checkCount w + 1\<rparr>),
               trace := trace st @ [CheckLoginStatus (w_accountId w), e]\<rparr>"
proof -
  let ?a = "w_accountId w"
  let ?st1 = "st\<lparr>timers := (timers st)(t \<mapsto> w\<lparr>w_checkCount := w_checkCount w + 1\<rparr>)\<rparr>"
  have s1: "activeBrowsers ?st1 ?a = Some s" using ses by simp
  from checkLoginStatus_state [OF s1, of "te_check env"]
  obtain e where st2: "snd (checkLoginStatus ?a (te_check env) ?st1) = ?st1\<lparr>trace := trace ?st1 @ [CheckLoginStatus ?a, e]\<rparr>"
    and e: "e = ContextCookies \<or> (\<exists>p. e = AdapterCheckLogin p)"
    by blast
  have "loginWatcherTick t env st = snd (checkLoginStatus ?a (te_check env) ?st1)"
    unfolding tick_head [OF live ses count] Let_def if_not_P [OF noup] if_not_P [OF nodown] ..
  also have "\<dots> = st\<lparr>timers := (timers st)(t \<mapsto> w\<lparr>w_checkCount := w_checkCount w + 1\<rparr>),
               trace := trace st @ [CheckLoginStatus ?a, e]\<rparr>"
    unfolding st2 by simp
  finally show ?thesis using e by blast
qed

lemma tick_down:
  assumes live: "timers st t = Some w"
      and ses: "activeBrowsers st (w_accountId w) = Some s"
      and count: "w_checkCount w < maxChecks"
      and down: "login_report (ses_platformId s) (w_accountId w) (te_check env) = Some False" "w_wasLoggedIn w"
  shows "\<exists>e. (e = ContextCookies \<or> (\<exists>p. e = AdapterCheckLogin p)) \<and>
          loginWatcherTick t env st =
            st\<lparr>timers := (timers st)(t \<mapsto> w\<lparr>w_checkCount := w_checkCount w + 1, w_wasLoggedIn := False\<rparr>),
               activeBrowsers := (activeBrowsers st)(w_accountId w \<mapsto> s\<lparr>ses_isLoggedIn := Some False\<rparr>),
               trace := trace st @ [CheckLoginStatus (w_accountId w), e, Log (LogLogoutDetected (w_accountId w))]\<rparr>"
proof -
  let ?a = "w_accountId w"
  let ?st1 = "st\<lparr>timers := (timers st)(t \<mapsto> w\<lparr>w_checkCount := w_checkCount w + 1\<rparr>)\<rparr>"
  have s1: "activeBrowsers ?st1 ?a = Some s" using ses by simp
  from checkLoginStatus_state [OF s1, of "te_check env"]
  obtain e where st2: "snd (checkLoginStatus ?a (te_check env) ?st1) = ?st1\<lparr>trace := trace ?st1 @ [CheckLoginStatus ?a, e]\<rparr>"
    and e: "e = ContextCookies \<or> (\<exists>p. e = AdapterCheckLogin p)"
    by blast
  have noup: "\<not> (login_report (ses_platformId s) ?a (te_check env) = Some True \<and> \<not> w_wasLoggedIn w)"
    using down by simp
  have isdown: "login_report (ses_platformId s) ?a (te_check env) = Some False \<and> w_wasLoggedIn w"
    using down by simp
  have "loginWatcherTick t env st =
          set_session ?a (\<lambda>s. s\<lparr>ses_isLoggedIn := Some False\<rparr>)
            (set_watcher t (\<lambda>w. w\<lparr>w_wasLoggedIn := False\<rparr>)
              (console_log (LogLogoutDetected ?a) (snd (checkLoginStatus ?a (te_check env) ?st1))))"
    unfolding tick_head [OF live ses count] Let_def if_not_P [OF noup] if_P [OF isdown] ..
  also have "\<dots> = st\<lparr>timers := (timers st)(t \<mapsto> w\<lparr>w_checkCount := w_checkCount w + 1, w_wasLoggedIn := False\<rparr>),
               activeBrowsers := (activeBrowsers st)(?a \<mapsto> s\<lparr>ses_isLoggedIn := Some False\<rparr>),
               trace := trace st @ [CheckLoginStatus ?a, e, Log (LogLogoutDetected ?a)]\<rparr>"
    unfolding st2 using ses
    by (simp add: set_watcher_def set_session_def console_log_def emit_def)
  finally show ?thesis using e by blast
qed

lemma tick_up:
  assumes live: "timers st t = Some w"
      and ses: "activeBrowsers st (w_accountId w) = Some s"
      and count: "w_checkCount w < maxChecks"
      and up: "login_report (ses_platformId s) (w_accountId w) (te_check env) = Some True" "\<not> w_wasLoggedIn w"
  shows "\<exists>e. (e = ContextCookies \<or> (\<exists>p. e = AdapterCheckLogin p)) \<and>
          loginWatcherTick t env st =
            st\<lparr>clock := (\<lambda>n. clock st (Suc n)),
               timers := (timers st)(t \<mapsto> w\<lparr>w_checkCount := w_checkCount w + 1, w_wasLoggedIn := True\<rparr>),
               activeBrowsers := (activeBrowsers st)(w_accountId w \<mapsto>
                  s\<lparr>ses_isLoggedIn := Some True, ses_loginDetectedAt := Some (clock st 0)\<rparr>),
               files := (case te_cookies env of Inl msg \<Rightarrow> files st
                         | Inr cookies \<Rightarrow> (files st)(cookies_file (w_accountId w) \<mapsto> JCookies cookies)),
               trace := trace st @ [CheckLoginStatus (w_accountId w), e, Log (LogLoginDetected (w_accountId w))]
                        @ save_events (w_accountId w) (te_cookies env)
                        @ [Log (LogSessionAutoSaved (w_accountId w))]
                        @ (if w_onLoginDetected w then [OnLoginDetected (w_accountId w)] else [])\<rparr>"
proof -
  let ?a = "w_accountId w"
  let ?w1 = "w\<lparr>w_checkCount := w_checkCount w + 1\<rparr>"
  let ?w2 = "w\<lparr>w_checkCount := w_checkCount w + 1, w_wasLoggedIn := True\<rparr>"
  let ?st1 = "st\<lparr>timers := (timers st)(t \<mapsto> ?w1)\<rparr>"
  have s1: "activeBrowsers ?st1 ?a = Some s" using ses by simp
  from checkLoginStatus_state [OF s1, of "te_check env"]
  obtain e where st2: "snd (checkLoginStatus ?a (te_check env) ?st1) = ?st1\<lparr>trace := trace ?st1 @ [CheckLoginStatus ?a, e]\<rparr>"
    and e: "e = ContextCookies \<or> (\<exists>p. e = AdapterCheckLogin p)"
    by blast
  have isup: "login_report (ses_platformId s) ?a (te_check env) = Some True \<and> \<not> w_wasLoggedIn w"
    using up by simp
  define st4 where "st4 = st\<lparr>timers := (timers st)(t \<mapsto> ?w2),
                              trace := trace st @ [CheckLoginStatus ?a, e, Log (LogLoginDetected ?a)]\<rparr>"
  define st6 where "st6 = st4\<lparr>files := (case te_cookies env of Inl msg \<Rightarrow> files st
                         | Inr cookies \<Rightarrow> (files st)(cookies_file ?a \<mapsto> JCookies cookies)),
               trace := trace st4 @ save_events ?a (te_cookies env) @ [Log (LogSessionAutoSaved ?a)]\<rparr>"
  define st9 where "st9 = st6\<lparr>clock := (\<lambda>n. clock st (Suc n)),
        activeBrowsers := (activeBrowsers st)(?a \<mapsto> s\<lparr>ses_isLoggedIn := Some True, ses_loginDetectedAt := Some (clock st 0)\<rparr>)\<rparr>"
  have step4: "set_watcher t (\<lambda>w. w\<lparr>w_wasLoggedIn := True\<rparr>)
                 (console_log (LogLoginDetected ?a) (snd (checkLoginStatus ?a (te_check env) ?st1))) = st4"
    unfolding st2 st4_def by (simp add: set_watcher_def console_log_def emit_def)
  have s4: "activeBrowsers st4 ?a = Some s" using ses by (simp add: st4_def)
  have f4: "files st4 = files st" by (simp add: st4_def)
  have step6: "console_log (LogSessionAutoSaved ?a) (snd (saveSession ?a (te_cookies env) st4)) = st6"
    unfolding saveSession_state [OF s4] st6_def f4
    by (simp add: console_log_def emit_def st4_def)
  have s6: "activeBrowsers st6 ?a = Some s" "activeBrowsers st6 = activeBrowsers st" "clock st6 = clock st"
    using ses by (simp_all add: st6_def st4_def)
  have step7: "set_session ?a (\<lambda>s. s\<lparr>ses_isLoggedIn := Some True\<rparr>) st6
                 = st6\<lparr>activeBrowsers := (activeBrowsers st)(?a \<mapsto> s\<lparr>ses_isLoggedIn := Some True\<rparr>)\<rparr>"
    using s6 by (simp add: set_session_def)
  have step9: "set_session ?a (\<lambda>s. s\<lparr>ses_loginDetectedAt := Some (fst (date_now (set_session ?a (\<lambda>s. s\<lparr>ses_isLoggedIn := Some True\<rparr>) st6)))\<rparr>)
                 (snd (date_now (set_session ?a (\<lambda>s. s\<lparr>ses_isLoggedIn := Some True\<rparr>) st6))) = st9"
    unfolding step7 st9_def using s6
    by (simp add: set_session_def date_now_def)
  have "loginWatcherTick t env st = (if w_onLoginDetected w then emit (OnLoginDetected ?a) st9 else st9)"
    unfolding tick_head [OF live ses count] Let_def if_P [OF isup] step4 step6 step9 ..
  also have "\<dots> = st\<lparr>clock := (\<lambda>n. clock st (Suc n)),
               timers := (timers st)(t \<mapsto> ?w2),
               activeBrowsers := (activeBrowsers st)(?a \<mapsto>
                  s\<lparr>ses_isLoggedIn := Some True, ses_loginDetectedAt := Some (clock st 0)\<rparr>),
               files := (case te_cookies env of Inl msg \<Rightarrow> files st
                         | Inr cookies \<Rightarrow> (files st)(cookies_file ?a \<mapsto> JCookies cookies)),
               trace := trace st @ [CheckLoginStatus ?a, e, Log (LogLoginDetected ?a)]
                        @ save_events ?a (te_cookies env)
                        @ [Log (LogSessionAutoSaved ?a)]
                        @ (if w_onLoginDetected w then [OnLoginDetected ?a] else [])\<rparr>"
    by (simp add: st9_def st6_def st4_def emit_def)
  finally show ?thesis using e by blast
qed

subsection \<open>The registry and the timers agree\<close>

lemma watch_part_simps [simp]:
  "watch_part (emit e st) = watch_part st"
  "watch_part (console_log l st) = watch_part st"
  "watch_part (ensureDir p st) = watch_part st"
  "watch_part (writeJson p j st) = watch_part st"
  "watch_part (humanDelay lo hi st) = watch_part st"
  "watch_part (simulateHumanBehavior st) = watch_part st"
  "watch_part (snd (isCloudflareChallenge st)) = watch_part st"
  "watch_part (snd (date_now st)) = watch_part st"
  "watch_part (snd (loadOrCreateFingerprint a st)) = watch_part st"
  "watch_part (snd (saveSession a cr st)) = watch_part st"
  "watch_part (snd (checkLoginStatus a chenv st)) = watch_part st"
  "watch_part (snd (takeScreenshot a sh st)) = watch_part st"
  "watch_part (snd (executeScript a script ev st)) = watch_part st"
  "watch_part (snd (launch_failed a m st)) = watch_part st"
  "watch_part (set_session a f st) = watch_part st"
  by (simp_all add: watch_part_def helper_defs humanDelay_def simulateHumanBehavior_def
      isCloudflareChallenge_def
      saveSession_def saveCookies_def checkLoginStatus_def takeScreenshot_def executeScript_def
      launch_failed_def set_session_def
      case_prod_unfold Let_def split: option.splits sum.splits)

lemma watch_part_challenge_loop [simp]: "watch_part (snd (challenge_loop n st)) = watch_part st"
proof (induction n st rule: challenge_loop.induct)
  case (1 attempts st)
  show ?case
  proof (cases "attempts < maxAttempts \<and> fst (isCloudflareChallenge st)")
    case False
    then show ?thesis
      by (auto simp add: challenge_loop.simps [of attempts st] case_prod_unfold Let_def)
  next
    case True
    let ?st1 = "snd (isCloudflareChallenge st)"
    let ?st2 = "if attempts mod 3 = 0 then simulateHumanBehavior ?st1 else ?st1"
    let ?st4 = "console_log (LogCfWaiting (attempts + 1) maxAttempts) (emit (Timeout 5000) ?st2)"
    have nn: "\<not> \<not> fst (isCloudflareChallenge st)" using True by simp
    have lt: "attempts < maxAttempts" using True by simp
    have "watch_part (snd (challenge_loop (attempts + 1) ?st4)) = watch_part ?st4"
      by (rule "1.IH" [OF lt refl prod.collapse nn refl refl refl])
    moreover have "challenge_loop attempts st = challenge_loop (attempts + 1) ?st4"
      using True by (simp add: challenge_loop.simps [of attempts st] case_prod_unfold Let_def)
    ultimately show ?thesis by simp
  qed
qed

lemma watch_part_handle [simp]: "watch_part (snd (handleCloudflareChallenge st)) = watch_part st"
  by (simp add: handleCloudflareChallenge_def)

lemma watch_part_launch [simp]: "watch_part (snd (launchBrowser options env st)) = watch_part st"
proof -
  have upd: "watch_part (s\<lparr>activeBrowsers := m\<rparr>) = watch_part s" for s m
    by (simp add: watch_part_def)
  show ?thesis
    by (simp add: launchBrowser_def Let_def case_prod_unfold ensureProfilesDir_def upd
        split: sum.splits list.splits option.splits json.splits)
qed

lemma consistent_cong: "watch_part st' = watch_part st \<Longrightarrow> watchers_consistent st' = watchers_consistent st"
  by (simp add: watch_part_def watchers_consistent_def)

lemma stop_consistent:
  assumes "watchers_consistent st"
  shows "watchers_consistent (stopLoginWatcher a st)"
proof (cases "loginWatchers st a")
  case None
  then show ?thesis using assms by (simp add: stopLoginWatcher_def)
next
  case (Some t)
  have eq: "loginWatchers (stopLoginWatcher a st) = (loginWatchers st)(a := None)"
       "timers (stopLoginWatcher a st) = (timers st)(t := None)"
       "nextTimer (stopLoginWatcher a st) = nextTimer st"
    using Some by (simp_all add: stopLoginWatcher_def Let_def helper_defs)
  from assms Some show ?thesis
    unfolding watchers_consistent_def eq
    by (auto split: if_splits) (metis option.inject)+
qed

lemma stop_no_timer_left:
  assumes "watchers_consistent st"
  shows "loginWatchers (stopLoginWatcher a st) a = None"
    and "timers (stopLoginWatcher a st) t = Some w \<Longrightarrow> w_accountId w \<noteq> a"
proof -
  show "loginWatchers (stopLoginWatcher a st) a = None"
    by (simp add: stopLoginWatcher_def Let_def helper_defs split: option.splits)
  with stop_consistent [OF assms, of a]
  show "timers (stopLoginWatcher a st) t = Some w \<Longrightarrow> w_accountId w \<noteq> a"
    unfolding watchers_consistent_def by force
qed

lemma start_consistent:
  assumes "watchers_consistent st"
  shows "watchers_consistent (startLoginWatcher a cb st)"
proof -
  let ?s = "stopLoginWatcher a st"
  have c: "watchers_consistent ?s" by (rule stop_consistent [OF assms])
  have none: "loginWatchers ?s a = None" by (rule stop_no_timer_left [OF assms])
  have eq: "loginWatchers (startLoginWatcher a cb st) = (loginWatchers ?s)(a \<mapsto> nextTimer ?s)"
       "timers (startLoginWatcher a cb st) = (timers ?s)(nextTimer ?s \<mapsto>
          \<lparr>w_accountId = a, w_wasLoggedIn = False, w_checkCount = 0, w_interval = 1000, w_onLoginDetected = cb\<rparr>)"
       "nextTimer (startLoginWatcher a cb st) = Suc (nextTimer ?s)"
    by (simp_all add: startLoginWatcher_def Let_def helper_defs)
  from c none show ?thesis
    unfolding watchers_consistent_def eq
    by (auto split: if_splits) (metis less_irrefl option.distinct(1))+
qed

lemma consistent_frame [simp]:
  "watchers_consistent (emit e st) = watchers_consistent st"
  "watchers_consistent (console_log l st) = watchers_consistent st"
  "watchers_consistent (humanDelay lo hi st) = watchers_consistent st"
  "watchers_consistent (simulateHumanBehavior st) = watchers_consistent st"
  "watchers_consistent (snd (isCloudflareChallenge st)) = watchers_consistent st"
  "watchers_consistent (snd (handleCloudflareChallenge st)) = watchers_consistent st"
  "watchers_consistent (snd (date_now st)) = watchers_consistent st"
  "watchers_consistent (snd (saveSession a cr st)) = watchers_consistent st"
  "watchers_consistent (snd (checkLoginStatus a chenv st)) = watchers_consistent st"
  "watchers_consistent (snd (takeScreenshot a sh st)) = watchers_consistent st"
  "watchers_consistent (snd (executeScript a script ev st)) = watchers_consistent st"
  "watchers_consistent (snd (launchBrowser options lenv st)) = watchers_consistent st"
  "watchers_consistent (set_session a f st) = watchers_consistent st"
  by (rule consistent_cong, simp)+

lemma set_watcher_consistent:
  assumes "watchers_consistent st" and "\<And>w. w_accountId (f w) = w_accountId w"
  shows "watchers_consistent (set_watcher t f st)"
  using assms
  by (auto simp add: set_watcher_def watchers_consistent_def split: option.splits if_splits)
     (metis option.inject)

lemma tick_consistent:
  assumes "watchers_consistent st"
  shows "watchers_consistent (loginWatcherTick t env st)"
  using assms
  by (auto simp add: loginWatcherTick_def Let_def case_prod_unfold
      intro!: stop_consistent set_watcher_consistent split: option.splits)

lemma close_consistent:
  assumes "watchers_consistent st"
  shows "watchers_consistent (snd (closeBrowser a b cenv st))"
proof -
  have upd: "watchers_consistent (s\<lparr>activeBrowsers := m\<rparr>) = watchers_consistent s" for s m
    by (rule consistent_cong) (simp add: watch_part_def)
  show ?thesis
    using assms
    by (auto simp add: closeBrowser_def Let_def upd intro!: stop_consistent split: option.splits)
qed

lemma navigate_consistent:
  assumes "watchers_consistent st"
  shows "watchers_consistent (snd (navigateTo a url opts gt st))"
  using assms
  by (auto simp add: navigateTo_def Let_def case_prod_unfold intro!: start_consistent split: option.splits)

lemma reachable_consistent: "reachable st \<Longrightarrow> watchers_consistent st"
proof (induction rule: reachable.induct)
  case (loaded st)
  then show ?case by (simp add: watchers_consistent_def)
qed (simp_all add: tick_consistent close_consistent navigate_consistent start_consistent stop_consistent)

subsection \<open>Runs of ticks\<close>

lemma tick_dead: "timers st t = None \<Longrightarrow> loginWatcherTick t env st = st"
  by (simp add: loginWatcherTick_def)

lemma run_dead: "timers st t = None \<Longrightarrow> run_ticks t envs st = st"
  by (induction envs) (simp_all add: tick_dead)

lemma stop_effect:
  "stopLoginWatcher a st =
     (case loginWatchers st a of
        None \<Rightarrow> st
      | Some t' \<Rightarrow> st\<lparr>timers := (timers st)(t' := None),
                       loginWatchers := (loginWatchers st)(a := None),
                       trace := trace st @ [ClearInterval t', Log (LogStoppedWatcher a)]\<rparr>)"
  by (simp add: stopLoginWatcher_def Let_def helper_defs split: option.splits)

lemma tick_stops:
  assumes live: "timers st t = Some w"
      and stop: "maxChecks \<le> w_checkCount w \<or> activeBrowsers st (w_accountId w) = None"
  shows "loginWatcherTick t env st =
           stopLoginWatcher (w_accountId w)
             (console_log (if maxChecks \<le> w_checkCount w then LogWatcherTimeout (w_accountId w)
                           else LogWatcherBrowserClosed (w_accountId w))
                (st\<lparr>timers := (timers st)(t \<mapsto> w\<lparr>w_checkCount := w_checkCount w + 1\<rparr>)\<rparr>))"
proof -
  have start: "set_watcher t f st = st\<lparr>timers := (timers st)(t \<mapsto> f w)\<rparr>" for f
    using live by (simp add: set_watcher_def)
  show ?thesis
    using live stop
    by (auto simp add: loginWatcherTick_def Let_def start split: option.splits)
qed

lemma tick_stops_registered:
  assumes live: "timers st t = Some w"
      and reg: "loginWatchers st (w_accountId w) = Some t"
      and stop: "maxChecks \<le> w_checkCount w \<or> activeBrowsers st (w_accountId w) = None"
  shows "loginWatcherTick t env st =
           st\<lparr>timers := (timers st)(t := None),
              loginWatchers := (loginWatchers st)(w_accountId w := None),
              trace := trace st @
                [Log (if maxChecks \<le> w_checkCount w then LogWatcherTimeout (w_accountId w)
                      else LogWatcherBrowserClosed (w_accountId w)),
                 ClearInterval t, Log (LogStoppedWatcher (w_accountId w))]\<rparr>"
  unfolding tick_stops [OF live stop] stop_effect
  using reg by (simp add: console_log_def emit_def)

lemma count_save_events [simp]:
  "count_list (save_events a cr) (SaveSession a) = 1"
  "count_list (save_events a cr) (CheckLoginStatus b) = 0"
  by (simp_all add: save_events_def split: sum.splits)

lemma tick_step:
  assumes live: "timers st t = Some w"
  shows "count_list (trace (loginWatcherTick t env st)) (CheckLoginStatus (w_accountId w))
           \<le> count_list (trace st) (CheckLoginStatus (w_accountId w))
              + (if w_checkCount w < maxChecks then 1 else 0)"
    and "timers (loginWatcherTick t env st) t = None \<or>
         (\<exists>w'. timers (loginWatcherTick t env st) t = Some w' \<and> w_accountId w' = w_accountId w \<and>
               w_checkCount w' = w_checkCount w + 1 \<and> w_interval w' = w_interval w)"
proof -
  let ?a = "w_accountId w"
  consider (stops) "maxChecks \<le> w_checkCount w \<or> activeBrowsers st ?a = None"
    | (up) s where "activeBrowsers st ?a = Some s" "w_checkCount w < maxChecks"
        "login_report (ses_platformId s) ?a (te_check env) = Some True" "\<not> w_wasLoggedIn w"
    | (down) s where "activeBrowsers st ?a = Some s" "w_checkCount w < maxChecks"
        "login_report (ses_platformId s) ?a (te_check env) = Some False" "w_wasLoggedIn w"
    | (quiet) s where "activeBrowsers st ?a = Some s" "w_checkCount w < maxChecks"
        "\<not> (login_report (ses_platformId s) ?a (te_check env) = Some True \<and> \<not> w_wasLoggedIn w)"
        "\<not> (login_report (ses_platformId s) ?a (te_check env) = Some False \<and> w_wasLoggedIn w)"
    by (cases "activeBrowsers st ?a") (simp_all add: not_le, metis not_le)
  then have "count_list (trace (loginWatcherTick t env st)) (CheckLoginStatus ?a)
           \<le> count_list (trace st) (CheckLoginStatus ?a)
              + (if w_checkCount w < maxChecks then 1 else 0) \<and>
         (timers (loginWatcherTick t env st) t = None \<or>
         (\<exists>w'. timers (loginWatcherTick t env st) t = Some w' \<and> w_accountId w' = ?a \<and>
               w_checkCount w' = w_checkCount w + 1 \<and> w_interval w' = w_interval w))"
  proof cases
    case stops
    show ?thesis
      unfolding tick_stops [OF live stops] stop_effect
      by (simp add: console_log_def emit_def split: option.splits)
  next
    case (up s)
    from tick_up [OF live up(1) up(2) up(3) up(4)] obtain e where
      "e = ContextCookies \<or> (\<exists>p. e = AdapterCheckLogin p)" and
      "loginWatcherTick t env st = st\<lparr>clock := (\<lambda>n. clock st (Suc n)),
               timers := (timers st)(t \<mapsto> w\<lparr>w_checkCount := w_checkCount w + 1, w_wasLoggedIn := True\<rparr>),
               activeBrowsers := (activeBrowsers st)(w_accountId w \<mapsto>
                  s\<lparr>ses_isLoggedIn := Some True, ses_loginDetectedAt := Some (clock st 0)\<rparr>),
               files := (case te_cookies env of Inl msg \<Rightarrow> files st
                         | Inr cookies \<Rightarrow> (files st)(cookies_file (w_accountId w) \<mapsto> JCookies cookies)),
               trace := trace st @ [CheckLoginStatus (w_accountId w), e, Log (LogLoginDetected (w_accountId w))]
                        @ save_events (w_accountId w) (te_cookies env)
                        @ [Log (LogSessionAutoSaved (w_accountId w))]
                        @ (if w_onLoginDetected w then [OnLoginDetected (w_accountId w)] else [])\<rparr>"
      by blast
    then show ?thesis using up(2) by auto
  next
    case (down s)
    from tick_down [OF live down(1) down(2) down(3) down(4)] obtain e where
      "e = ContextCookies \<or> (\<exists>p. e = AdapterCheckLogin p)" and
      "loginWatcherTick t env st =
            st\<lparr>timers := (timers st)(t \<mapsto> w\<lparr>w_checkCount := w_checkCount w + 1, w_wasLoggedIn := False\<rparr>),
               activeBrowsers := (activeBrowsers st)(w_accountId w \<mapsto> s\<lparr>ses_isLoggedIn := Some False\<rparr>),
               trace := trace st @ [CheckLoginStatus (w_accountId w), e, Log (LogLogoutDetected (w_accountId w))]\<rparr>"
      by blast
    then show ?thesis using down(2) by auto
  next
    case (quiet s)
    from tick_quiet [OF live quiet(1) quiet(2) quiet(3) quiet(4)] obtain e where
      "e = ContextCookies \<or> (\<exists>p. e = AdapterCheckLogin p)" and
      "loginWatcherTick t env st =
            st\<lparr>timers := (timers st)(t \<mapsto> w\<lparr>w_checkCount := w_checkCount w + 1\<rparr>),
               trace := trace st @ [CheckLoginStatus (w_accountId w), e]\<rparr>"
      by blast
    then show ?thesis using quiet(2) by auto
  qed
  then show "count_list (trace (loginWatcherTick t env st)) (CheckLoginStatus (w_accountId w))
           \<le> count_list (trace st) (CheckLoginStatus (w_accountId w))
              + (if w_checkCount w < maxChecks then 1 else 0)"
    and "timers (loginWatcherTick t env st) t = None \<or>
         (\<exists>w'. timers (loginWatcherTick t env st) t = Some w' \<and> w_accountId w' = w_accountId w \<and>
               w_checkCount w' = w_checkCount w + 1 \<and> w_interval w' = w_interval w)"
    by blast+
qed

lemma run_checks_bounded:
  assumes "timers st t = Some w"
  shows "count_list (trace (run_ticks t envs st)) (CheckLoginStatus (w_accountId w))
           \<le> count_list (trace st) (CheckLoginStatus (w_accountId w)) + (maxChecks - w_checkCount w)"
  using assms
proof (induction envs arbitrary: st w)
  case Nil
  then show ?case by simp
next
  case (Cons env envs)
  let ?st' = "loginWatcherTick t env st"
  note step = tick_step [OF Cons.prems, of env]
  show ?case
  proof (cases "timers ?st' t")
    case None
    then show ?thesis using step(1) by (simp add: run_dead split: if_splits)
  next
    case (Some w')
    with step(2) have w': "w_accountId w' = w_accountId w" "w_checkCount w' = w_checkCount w + 1"
      by auto
    from Cons.IH [OF Some] w' step(1) show ?thesis
      by (simp split: if_splits)
  qed
qed

lemma tick_registered:
  assumes live: "timers st t = Some w"
      and reg: "loginWatchers st (w_accountId w) = Some t"
  shows "if maxChecks \<le> w_checkCount w \<or> activeBrowsers st (w_accountId w) = None
         then timers (loginWatcherTick t env st) t = None \<and>
              loginWatchers (loginWatcherTick t env st) (w_accountId w) = None
         else (\<exists>w'. timers (loginWatcherTick t env st) t = Some w' \<and>
                    w_accountId w' = w_accountId w \<and> w_checkCount w' = w_checkCount w + 1) \<and>
              loginWatchers (loginWatcherTick t env st) (w_accountId w) = Some t"
proof (cases "maxChecks \<le> w_checkCount w \<or> activeBrowsers st (w_accountId w) = None")
  case True
  then show ?thesis
    by (simp add: tick_stops_registered [OF live reg True])
next
  case False
  then obtain s where s: "activeBrowsers st (w_accountId w) = Some s" and c: "w_checkCount w < maxChecks"
    by (auto simp: not_le)
  let ?r = "login_report (ses_platformId s) (w_accountId w) (te_check env)"
  consider (up) "?r = Some True" "\<not> w_wasLoggedIn w"
    | (down) "?r = Some False" "w_wasLoggedIn w"
    | (quiet) "\<not> (?r = Some True \<and> \<not> w_wasLoggedIn w)" "\<not> (?r = Some False \<and> w_wasLoggedIn w)"
    by blast
  then show ?thesis
  proof cases
    case up
    from tick_up [OF live s c up] reg False show ?thesis by auto
  next
    case down
    from tick_down [OF live s c down] reg False show ?thesis by auto
  next
    case quiet
    from tick_quiet [OF live s c quiet] reg False show ?thesis by auto
  qed
qed

lemma run_stops:
  assumes "timers st t = Some w" "loginWatchers st (w_accountId w) = Some t"
      and "maxChecks - w_checkCount w < length envs"
  shows "timers (run_ticks t envs st) t = None \<and>
         loginWatchers (run_ticks t envs st) (w_accountId w) = None"
  using assms
proof (induction envs arbitrary: st w)
  case Nil
  then show ?case by simp
next
  case (Cons env envs)
  let ?st' = "loginWatcherTick t env st"
  note step = tick_registered [OF Cons.prems(1) Cons.prems(2), of env]
  show ?case
  proof (cases "maxChecks \<le> w_checkCount w \<or> activeBrowsers st (w_accountId w) = None")
    case True
    with step have "timers ?st' t = None" "loginWatchers ?st' (w_accountId w) = None"
      by simp_all
    then show ?thesis by (simp add: run_dead)
  next
    case False
    with step obtain w' where w': "timers ?st' t = Some w'" "w_accountId w' = w_accountId w"
        "w_checkCount w' = w_checkCount w + 1" "loginWatchers ?st' (w_accountId w) = Some t"
      by auto
    from False Cons.prems(3) w'(3) have "maxChecks - w_checkCount w' < length envs"
      by (simp add: not_le) linarith
    from Cons.IH [OF w'(1) _ this] w'(2) w'(4) show ?thesis by simp
  qed
qed

lemma tick_summary:
  assumes live: "timers st t = Some w"
      and ses: "activeBrowsers st (w_accountId w) = Some s"
      and count: "w_checkCount w < maxChecks"
  shows "\<exists>w' s'. timers (loginWatcherTick t env st) t = Some w' \<and>
           w_accountId w' = w_accountId w \<and> w_checkCount w' = w_checkCount w + 1 \<and>
           w_wasLoggedIn w' = (case login_report (ses_platformId s) (w_accountId w) (te_check env) of
                                 None \<Rightarrow> w_wasLoggedIn w | Some b \<Rightarrow> b) \<and>
           activeBrowsers (loginWatcherTick t env st) (w_accountId w) = Some s' \<and>
           ses_platformId s' = ses_platformId s \<and>
           count_list (trace (loginWatcherTick t env st)) (SaveSession (w_accountId w)) =
             count_list (trace st) (SaveSession (w_accountId w)) +
             (if login_report (ses_platformId s) (w_accountId w) (te_check env) = Some True
                 \<and> \<not> w_wasLoggedIn w then 1 else 0)"
proof -
  let ?r = "login_report (ses_platformId s) (w_accountId w) (te_check env)"
  consider (up) "?r = Some True" "\<not> w_wasLoggedIn w"
    | (down) "?r = Some False" "w_wasLoggedIn w"
    | (quiet) "\<not> (?r = Some True \<and> \<not> w_wasLoggedIn w)" "\<not> (?r = Some False \<and> w_wasLoggedIn w)"
    by blast
  then show ?thesis
  proof cases
    case up
    from tick_up [OF live ses count up] up show ?thesis by auto
  next
    case down
    from tick_down [OF live ses count down] down show ?thesis by auto
  next
    case quiet
    from tick_quiet [OF live ses count quiet] quiet ses show ?thesis
      by (cases ?r) auto
  qed
qed

lemma run_saves:
  assumes "timers st t = Some w" "activeBrowsers st (w_accountId w) = Some s"
      and "w_checkCount w + length envs \<le> maxChecks"
  shows "count_list (trace (run_ticks t envs st)) (SaveSession (w_accountId w)) =
           count_list (trace st) (SaveSession (w_accountId w)) +
           rising_edges (w_wasLoggedIn w)
             (map (\<lambda>env. login_report (ses_platformId s) (w_accountId w) (te_check env)) envs)"
  using assms
proof (induction envs arbitrary: st w s)
  case Nil
  then show ?case by simp
next
  case (Cons env envs)
  let ?st' = "loginWatcherTick t env st"
  let ?r = "login_report (ses_platformId s) (w_accountId w) (te_check env)"
  from Cons.prems(3) have c: "w_checkCount w < maxChecks" by simp
  from tick_summary [OF Cons.prems(1) Cons.prems(2) c, of env]
  obtain w' s' where step:
    "timers ?st' t = Some w'" "w_accountId w' = w_accountId w" "w_checkCount w' = w_checkCount w + 1"
    "w_wasLoggedIn w' = (case ?r of None \<Rightarrow> w_wasLoggedIn w | Some b \<Rightarrow> b)"
    "activeBrowsers ?st' (w_accountId w) = Some s'" "ses_platformId s' = ses_platformId s"
    "count_list (trace ?st') (SaveSession (w_accountId w)) =
       count_list (trace st) (SaveSession (w_accountId w)) +
       (if ?r = Some True \<and> \<not> w_wasLoggedIn w then 1 else 0)"
    by blast
  have s'': "activeBrowsers ?st' (w_accountId w') = Some s'" using step by simp
  have c': "w_checkCount w' + length envs \<le> maxChecks" using Cons.prems(3) step(3) by simp
  from Cons.IH [OF step(1) s'' c'] step show ?case
    by (cases ?r) auto
qed

lemma tick_ignores_exception:
  assumes live: "timers st t = Some w"
      and ses: "activeBrowsers st (w_accountId w) = Some s"
      and count: "w_checkCount w < maxChecks"
      and threw: "login_report (ses_platformId s) (w_accountId w) (te_check env) = None"
  shows "logs_of (trace (loginWatcherTick t env st)) = logs_of (trace st)"
    and "timers (loginWatcherTick t env st) = (timers st)(t \<mapsto> w\<lparr>w_checkCount := w_checkCount w + 1\<rparr>)"
    and "loginWatchers (loginWatcherTick t env st) = loginWatchers st"
    and "activeBrowsers (loginWatcherTick t env st) = activeBrowsers st"
    and "files (loginWatcherTick t env st) = files st"
    and "count_list (trace (loginWatcherTick t env st)) (SaveSession (w_accountId w))
           = count_list (trace st) (SaveSession (w_accountId w))"
proof -
  have q: "\<not> (login_report (ses_platformId s) (w_accountId w) (te_check env) = Some True \<and> \<not> w_wasLoggedIn w)"
          "\<not> (login_report (ses_platformId s) (w_accountId w) (te_check env) = Some False \<and> w_wasLoggedIn w)"
    using threw by simp_all
  from tick_quiet [OF live ses count q] obtain e where
    e: "e = ContextCookies \<or> (\<exists>p. e = AdapterCheckLogin p)" and
    eq: "loginWatcherTick t env st =
            st\<lparr>timers := (timers st)(t \<mapsto> w\<lparr>w_checkCount := w_checkCount w + 1\<rparr>),
               trace := trace st @ [CheckLoginStatus (w_accountId w), e]\<rparr>"
    by blast
  show "logs_of (trace (loginWatcherTick t env st)) = logs_of (trace st)"
    and "timers (loginWatcherTick t env st) = (timers st)(t \<mapsto> w\<lparr>w_checkCount := w_checkCount w + 1\<rparr>)"
    and "loginWatchers (loginWatcherTick t env st) = loginWatchers st"
    and "activeBrowsers (loginWatcherTick t env st) = activeBrowsers st"
    and "files (loginWatcherTick t env st) = files st"
    and "count_list (trace (loginWatcherTick t env st)) (SaveSession (w_accountId w))
           = count_list (trace st) (SaveSession (w_accountId w))"
    unfolding eq using e by auto
qed

lemma run_interval:
  assumes "timers st t = Some w"
  shows "case timers (run_ticks t envs st) t of
           None \<Rightarrow> True
         | Some w' \<Rightarrow> w_interval w' = w_interval w \<and> w_accountId w' = w_accountId w"
  using assms
proof (induction envs arbitrary: st w)
  case Nil
  then show ?case by simp
next
  case (Cons env envs)
  let ?st' = "loginWatcherTick t env st"
  show ?case
  proof (cases "timers ?st' t")
    case None
    then show ?thesis by (simp add: run_dead)
  next
    case (Some w')
    with tick_step(2) [OF Cons.prems, of env]
    have "w_interval w' = w_interval w" "w_accountId w' = w_accountId w" by auto
    with Cons.IH [OF Some] show ?thesis by (simp split: option.splits)
  qed
qed

lemma start_registers:
  "timers (startLoginWatcher a cb st) (nextTimer st) =
     Some \<lparr>w_accountId = a, w_wasLoggedIn = False, w_checkCount = 0, w_interval = 1000,
           w_onLoginDetected = cb\<rparr>"
  "loginWatchers (startLoginWatcher a cb st) a = Some (nextTimer st)"
  "trace (startLoginWatcher a cb st) =
     trace (stopLoginWatcher a st) @ [Log (LogStartWatcher a), SetInterval (nextTimer st) 1000]"
  by (simp_all add: startLoginWatcher_def stop_effect Let_def helper_defs split: option.splits)

text \<open>
  Claim C5. \<^verbatim>\<open>startLoginWatcher\<close> registers for the account a timer with a period of
  1000 ms whose check count starts at 0, and no tick changes the period. Over any run of
  ticks of a timer the login check is entered at most \<open>maxChecks = 120\<close> times, less
  the checks already counted. A registered timer that is ticked more than
  \<open>120 - checkCount\<close> times has been cleared and removed from the registry by the end.
  And a tick of a registered timer whose account has no session clears the timer and its
  registry entry and does nothing else: the session map and the files are as before and
  neither a login check nor a session save is made.
\<close>

theorem login_watcher_is_bounded:
  "maxChecks = 120 \<and>
   timers (startLoginWatcher a cb st0) (nextTimer st0) =
     Some \<lparr>w_accountId = a, w_wasLoggedIn = False, w_checkCount = 0, w_interval = 1000,
           w_onLoginDetected = cb\<rparr> \<and>
   loginWatchers (startLoginWatcher a cb st0) a = Some (nextTimer st0) \<and>
   (timers st t = Some w \<longrightarrow>
      count_list (trace (run_ticks t envs st)) (CheckLoginStatus (w_accountId w))
        \<le> count_list (trace st) (CheckLoginStatus (w_accountId w)) + (maxChecks - w_checkCount w) \<and>
      (case timers (run_ticks t envs st) t of
         None \<Rightarrow> True
       | Some w' \<Rightarrow> w_interval w' = w_interval w \<and> w_accountId w' = w_accountId w)) \<and>
   (timers st t = Some w \<and> loginWatchers st (w_accountId w) = Some t \<and>
    maxChecks - w_checkCount w < length envs \<longrightarrow>
      timers (run_ticks t envs st) t = None \<and>
      loginWatchers (run_ticks t envs st) (w_accountId w) = None) \<and>
   (timers st t = Some w \<and> loginWatchers st (w_accountId w) = Some t \<and>
    activeBrowsers st (w_accountId w) = None \<longrightarrow>
      timers (loginWatcherTick t env st) t = None \<and>
      loginWatchers (loginWatcherTick t env st) (w_accountId w) = None \<and>
      activeBrowsers (loginWatcherTick t env st) = activeBrowsers st \<and>
      files (loginWatcherTick t env st) = files st \<and>
      count_list (trace (loginWatcherTick t env st)) (CheckLoginStatus (w_accountId w))
        = count_list (trace st) (CheckLoginStatus (w_accountId w)) \<and>
      count_list (trace (loginWatcherTick t env st)) (SaveSession (w_accountId w))
        = count_list (trace st) (SaveSession (w_accountId w)))"
proof -
  have gone:
    "timers (loginWatcherTick t env st) t = None \<and>
      loginWatchers (loginWatcherTick t env st) (w_accountId w) = None \<and>
      activeBrowsers (loginWatcherTick t env st) = activeBrowsers st \<and>
      files (loginWatcherTick t env st) = files st \<and>
      count_list (trace (loginWatcherTick t env st)) (CheckLoginStatus (w_accountId w))
        = count_list (trace st) (CheckLoginStatus (w_accountId w)) \<and>
      count_list (trace (loginWatcherTick t env st)) (SaveSession (w_accountId w))
        = count_list (trace st) (SaveSession (w_accountId w))"
    if "timers st t = Some w" "loginWatchers st (w_accountId w) = Some t"
       "activeBrowsers st (w_accountId w) = None"
    using that by (simp add: tick_stops_registered [OF that(1) that(2)])
  show ?thesis
    using run_checks_bounded [of st t w envs] run_interval [of st t w envs]
      run_stops [of st t w envs] gone start_registers(1,2) [of a cb st0]
    by (simp add: maxChecks_def)
qed

theorem login_watcher_is_bounded_witness:
  "timers watching_state 0 =
     Some \<lparr>w_accountId = ''acct-1'', w_wasLoggedIn = False, w_checkCount = 0, w_interval = 1000,
           w_onLoginDetected = False\<rparr> \<and>
   loginWatchers watching_state ''acct-1'' = Some 0 \<and>
   count_list (trace (run_ticks 0 (replicate 121 (adapter_says False)) watching_state))
     (CheckLoginStatus ''acct-1'') \<le> 120 \<and>
   timers (run_ticks 0 (replicate 121 (adapter_says False)) watching_state) 0 = None \<and>
   loginWatchers (run_ticks 0 (replicate 121 (adapter_says False)) watching_state) ''acct-1'' = None \<and>
   activeBrowsers (startLoginWatcher ''acct-1'' False fresh_state) ''acct-1'' = None \<and>
   timers (loginWatcherTick 0 (adapter_says True) (startLoginWatcher ''acct-1'' False fresh_state)) 0
     = None \<and>
   activeBrowsers (loginWatcherTick 0 (adapter_says True)
     (startLoginWatcher ''acct-1'' False fresh_state)) = Map.empty"
proof -
  let ?w = "\<lparr>w_accountId = ''acct-1'', w_wasLoggedIn = False, w_checkCount = 0, w_interval = 1000,
           w_onLoginDetected = False\<rparr>"
  let ?orphan = "startLoginWatcher ''acct-1'' False fresh_state"
  have nt: "nextTimer active_state = 0" "nextTimer fresh_state = 0"
    by (simp_all add: active_state_def fresh_state_def)
  have live: "timers watching_state 0 = Some ?w"
    using start_registers(1) [of "''acct-1''" False active_state]
    unfolding nt watching_state_def .
  have reg: "loginWatchers watching_state (w_accountId ?w) = Some 0"
    using start_registers(2) [of "''acct-1''" False active_state]
    unfolding nt watching_state_def by simp
  have checks: "count_list (trace watching_state) (CheckLoginStatus ''acct-1'') = 0"
    unfolding watching_state_def start_registers(3)
    by (simp add: active_state_def fresh_state_def stop_effect)
  have live': "timers ?orphan 0 = Some ?w"
    using start_registers(1) [of "''acct-1''" False fresh_state] unfolding nt .
  have reg': "loginWatchers ?orphan (w_accountId ?w) = Some 0"
    using start_registers(2) [of "''acct-1''" False fresh_state] unfolding nt by simp
  have gone: "activeBrowsers ?orphan ''acct-1'' = None" "activeBrowsers ?orphan = Map.empty"
    by (simp_all add: startLoginWatcher_def stop_effect Let_def helper_defs fresh_state_def)
  define envs where "envs = replicate 121 (adapter_says False)"
  have len: "maxChecks - w_checkCount ?w < length envs"
    by (simp add: envs_def maxChecks_def)
  note run = login_watcher_is_bounded [of "''acct-1''" False active_state watching_state 0 ?w envs
      "adapter_says True"]
  note orphan = login_watcher_is_bounded [of "''acct-1''" False active_state ?orphan 0 ?w envs
      "adapter_says True"]
  from run live have bound:
    "count_list (trace (run_ticks 0 envs watching_state)) (CheckLoginStatus (w_accountId ?w))
       \<le> count_list (trace watching_state) (CheckLoginStatus (w_accountId ?w))
          + (maxChecks - w_checkCount ?w)"
    by blast
  from run live reg len have stopped:
    "timers (run_ticks 0 envs watching_state) 0 = None \<and>
     loginWatchers (run_ticks 0 envs watching_state) (w_accountId ?w) = None"
    by blast
  have gone': "activeBrowsers ?orphan (w_accountId ?w) = None"
    using gone by simp
  from orphan live' reg' gone' have noop:
    "timers (loginWatcherTick 0 (adapter_says True) ?orphan) 0 = None \<and>
     activeBrowsers (loginWatcherTick 0 (adapter_says True) ?orphan) = activeBrowsers ?orphan"
    by blast
  have bound': "count_list (trace (run_ticks 0 envs watching_state)) (CheckLoginStatus ''acct-1'') \<le> 120"
    using bound checks by (simp add: maxChecks_def)
  show ?thesis
    using live reg bound' stopped noop gone
    unfolding envs_def by simp
qed

subsection \<open>Login detection\<close>

text \<open>
  Claim C1. Take a live timer of a login watcher whose account has a session, and a tick
  below the limit of 120 checks. If the login check reports true and the watcher's last
  known state is false, the tick enters \<^verbatim>\<open>saveSession\<close> exactly once (and, when
  \<^verbatim>\<open>cookies()\<close> returns, the cookies are in the account's \<^verbatim>\<open>cookies.json\<close>), sets
  \<^verbatim>\<open>isLoggedIn\<close> to true and \<^verbatim>\<open>loginDetectedAt\<close> to the clock's reading, and remembers
  true. If it reports true and the watcher already knows true, nothing is saved and the
  session is untouched. If it reports false and the watcher knows true, \<^verbatim>\<open>isLoggedIn\<close>
  becomes false and nothing is saved. Over a run of ticks within the limit the number of
  session saves is the number of changes from false to true in the sequence of reports.
  For the reports false, false, true, true, false to a fresh watcher that number is 0
  after two ticks and 1 after three and after five.
\<close>

theorem login_watcher_saves_once_per_login:
  assumes live: "timers st t = Some w"
      and ses: "activeBrowsers st (w_accountId w) = Some s"
  shows
    "(w_checkCount w < maxChecks \<and>
      login_report (ses_platformId s) (w_accountId w) (te_check env) = Some True \<and>
      \<not> w_wasLoggedIn w \<longrightarrow>
        count_list (trace (loginWatcherTick t env st)) (SaveSession (w_accountId w))
          = count_list (trace st) (SaveSession (w_accountId w)) + 1 \<and>
        activeBrowsers (loginWatcherTick t env st) (w_accountId w)
          = Some (s\<lparr>ses_isLoggedIn := Some True, ses_loginDetectedAt := Some (clock st 0)\<rparr>) \<and>
        timers (loginWatcherTick t env st) t
          = Some (w\<lparr>w_checkCount := w_checkCount w + 1, w_wasLoggedIn := True\<rparr>) \<and>
        files (loginWatcherTick t env st)
          = (case te_cookies env of
               Inl msg \<Rightarrow> files st
             | Inr cookies \<Rightarrow> (files st)(cookies_file (w_accountId w) \<mapsto> JCookies cookies))) \<and>
     (w_checkCount w < maxChecks \<and>
      login_report (ses_platformId s) (w_accountId w) (te_check env) = Some True \<and>
      w_wasLoggedIn w \<longrightarrow>
        count_list (trace (loginWatcherTick t env st)) (SaveSession (w_accountId w))
          = count_list (trace st) (SaveSession (w_accountId w)) \<and>
        activeBrowsers (loginWatcherTick t env st) = activeBrowsers st \<and>
        files (loginWatcherTick t env st) = files st \<and>
        timers (loginWatcherTick t env st) t
          = Some (w\<lparr>w_checkCount := w_checkCount w + 1\<rparr>)) \<and>
     (w_checkCount w < maxChecks \<and>
      login_report (ses_platformId s) (w_accountId w) (te_check env) = Some False \<and>
      w_wasLoggedIn w \<longrightarrow>
        count_list (trace (loginWatcherTick t env st)) (SaveSession (w_accountId w))
          = count_list (trace st) (SaveSession (w_accountId w)) \<and>
        activeBrowsers (loginWatcherTick t env st) (w_accountId w)
          = Some (s\<lparr>ses_isLoggedIn := Some False\<rparr>) \<and>
        files (loginWatcherTick t env st) = files st \<and>
        timers (loginWatcherTick t env st) t
          = Some (w\<lparr>w_checkCount := w_checkCount w + 1, w_wasLoggedIn := False\<rparr>)) \<and>
     (w_checkCount w + length envs \<le> maxChecks \<longrightarrow>
        count_list (trace (run_ticks t envs st)) (SaveSession (w_accountId w))
          = count_list (trace st) (SaveSession (w_accountId w)) +
            rising_edges (w_wasLoggedIn w)
              (map (\<lambda>env. login_report (ses_platformId s) (w_accountId w) (te_check env)) envs))"
proof -
  let ?r = "login_report (ses_platformId s) (w_accountId w) (te_check env)"
  have rising: "count_list (trace (loginWatcherTick t env st)) (SaveSession (w_accountId w))
          = count_list (trace st) (SaveSession (w_accountId w)) + 1 \<and>
        activeBrowsers (loginWatcherTick t env st) (w_accountId w)
          = Some (s\<lparr>ses_isLoggedIn := Some True, ses_loginDetectedAt := Some (clock st 0)\<rparr>) \<and>
        timers (loginWatcherTick t env st) t
          = Some (w\<lparr>w_checkCount := w_checkCount w + 1, w_wasLoggedIn := True\<rparr>) \<and>
        files (loginWatcherTick t env st)
          = (case te_cookies env of
               Inl msg \<Rightarrow> files st
             | Inr cookies \<Rightarrow> (files st)(cookies_file (w_accountId w) \<mapsto> JCookies cookies))"
    if "w_checkCount w < maxChecks" "?r = Some True" "\<not> w_wasLoggedIn w"
    using tick_up [OF live ses that] by auto
  have steady: "count_list (trace (loginWatcherTick t env st)) (SaveSession (w_accountId w))
          = count_list (trace st) (SaveSession (w_accountId w)) \<and>
        activeBrowsers (loginWatcherTick t env st) = activeBrowsers st \<and>
        files (loginWatcherTick t env st) = files st \<and>
        timers (loginWatcherTick t env st) t
          = Some (w\<lparr>w_checkCount := w_checkCount w + 1\<rparr>)"
    if "w_checkCount w < maxChecks" "?r = Some True" "w_wasLoggedIn w"
  proof -
    have q: "\<not> (?r = Some True \<and> \<not> w_wasLoggedIn w)" "\<not> (?r = Some False \<and> w_wasLoggedIn w)"
      using that by simp_all
    from tick_quiet [OF live ses that(1) q] show ?thesis by auto
  qed
  have falling: "count_list (trace (loginWatcherTick t env st)) (SaveSession (w_accountId w))
          = count_list (trace st) (SaveSession (w_accountId w)) \<and>
        activeBrowsers (loginWatcherTick t env st) (w_accountId w)
          = Some (s\<lparr>ses_isLoggedIn := Some False\<rparr>) \<and>
        files (loginWatcherTick t env st) = files st \<and>
        timers (loginWatcherTick t env st) t
          = Some (w\<lparr>w_checkCount := w_checkCount w + 1, w_wasLoggedIn := False\<rparr>)"
    if "w_checkCount w < maxChecks" "?r = Some False" "w_wasLoggedIn w"
    using tick_down [OF live ses that] by auto
  show ?thesis
    using rising steady falling run_saves [OF live ses, of envs] by blast
qed

theorem login_watcher_saves_once_per_login_witness:
  "timers watching_state 0 =
     Some \<lparr>w_accountId = ''acct-1'', w_wasLoggedIn = False, w_checkCount = 0, w_interval = 1000,
           w_onLoginDetected = False\<rparr> \<and>
   activeBrowsers watching_state ''acct-1'' = Some demo_session \<and>
   count_list (trace watching_state) (SaveSession ''acct-1'') = 0 \<and>
   count_list (trace (run_ticks 0 [adapter_says False, adapter_says False] watching_state))
     (SaveSession ''acct-1'') = 0 \<and>
   count_list (trace (run_ticks 0 [adapter_says False, adapter_says False, adapter_says True]
     watching_state)) (SaveSession ''acct-1'') = 1 \<and>
   count_list (trace (run_ticks 0 [adapter_says False, adapter_says False, adapter_says True,
     adapter_says True, adapter_says False] watching_state)) (SaveSession ''acct-1'') = 1"
proof -
  let ?w = "\<lparr>w_accountId = ''acct-1'', w_wasLoggedIn = False, w_checkCount = 0, w_interval = 1000,
           w_onLoginDetected = False\<rparr>"
  have nt: "nextTimer active_state = 0"
    by (simp add: active_state_def fresh_state_def)
  have live: "timers watching_state 0 = Some ?w"
    using start_registers(1) [of "''acct-1''" False active_state]
    unfolding nt watching_state_def .
  have ses: "activeBrowsers watching_state (w_accountId ?w) = Some demo_session"
    by (simp add: watching_state_def active_state_def fresh_state_def startLoginWatcher_def stop_effect
        Let_def helper_defs)
  have none: "count_list (trace watching_state) (SaveSession ''acct-1'') = 0"
    unfolding watching_state_def start_registers(3)
    by (simp add: active_state_def fresh_state_def stop_effect)
  have says: "login_report (ses_platformId demo_session) ''acct-1'' (te_check (adapter_says b)) = Some b" for b
    by (simp add: login_report_def demo_session_def adapter_says_def truthy_string_def)
  note run = login_watcher_saves_once_per_login [OF live ses]
  show ?thesis
    using live ses none
      run [of _ "[adapter_says False, adapter_says False]"]
      run [of _ "[adapter_says False, adapter_says False, adapter_says True]"]
      run [of _ "[adapter_says False, adapter_says False, adapter_says True,
                  adapter_says True, adapter_says False]"]
    by (simp add: says maxChecks_def)
qed

subsection \<open>A login check that throws\<close>

text \<open>
  Claim C9, as amended. The claim says that an exception of the login check during a tick
  is logged. It is not: \<^verbatim>\<open>checkLoginStatus\<close> catches the exception and returns a
  failure object, which neither branch of the tick acts on, and the tick's own
  \<^verbatim>\<open>catch\<close> block is empty (its comment says that errors during the check are
  ignored). What holds is this. On a tick of a live timer, below the limit of 120 checks
  and with the session present, on which the login check throws: the check's result is a
  failure object; the tick writes no log line; the timer keeps its place with the check
  count increased by one and the last known login state unchanged, and the registry is
  unchanged, so the next tick runs as usual; the session map and the files are unchanged
  and no session save is made.
\<close>

theorem login_check_exception_is_ignored:
  assumes live: "timers st t = Some w"
      and ses: "activeBrowsers st (w_accountId w) = Some s"
      and count: "w_checkCount w < maxChecks"
      and threw: "login_report (ses_platformId s) (w_accountId w) (te_check env) = None"
  shows "\<not> success (fst (checkLoginStatus (w_accountId w) (te_check env) st)) \<and>
         logs_of (added st (loginWatcherTick t env st)) = [] \<and>
         timers (loginWatcherTick t env st)
           = (timers st)(t \<mapsto> w\<lparr>w_checkCount := w_checkCount w + 1\<rparr>) \<and>
         loginWatchers (loginWatcherTick t env st) = loginWatchers st \<and>
         activeBrowsers (loginWatcherTick t env st) = activeBrowsers st \<and>
         files (loginWatcherTick t env st) = files st \<and>
         count_list (trace (loginWatcherTick t env st)) (SaveSession (w_accountId w))
           = count_list (trace st) (SaveSession (w_accountId w))"
proof -
  have q: "\<not> (login_report (ses_platformId s) (w_accountId w) (te_check env) = Some True
               \<and> \<not> w_wasLoggedIn w)"
          "\<not> (login_report (ses_platformId s) (w_accountId w) (te_check env) = Some False
               \<and> w_wasLoggedIn w)"
    using threw by simp_all
  from tick_quiet [OF live ses count q] obtain e where
    e: "e = ContextCookies \<or> (\<exists>p. e = AdapterCheckLogin p)" and
    eq: "loginWatcherTick t env st =
            st\<lparr>timers := (timers st)(t \<mapsto> w\<lparr>w_checkCount := w_checkCount w + 1\<rparr>),
               trace := trace st @ [CheckLoginStatus (w_accountId w), e]\<rparr>"
    by blast
  have failed: "\<not> success (fst (checkLoginStatus (w_accountId w) (te_check env) st))"
    using checkLoginStatus_report(2) [OF ses, of "te_check env"] threw by simp
  show ?thesis
    unfolding eq added_def using e failed by auto
qed

theorem login_check_exception_is_ignored_witness:
  "timers fallback_state 0 =
     Some \<lparr>w_accountId = ''acct-2'', w_wasLoggedIn = False, w_checkCount = 0, w_interval = 1000,
           w_onLoginDetected = False\<rparr> \<and>
   activeBrowsers fallback_state ''acct-2'' = Some (demo_session\<lparr>ses_platformId := None\<rparr>) \<and>
   login_report None ''acct-2'' (te_check cookies_throw) = None \<and>
   logs_of (added fallback_state (loginWatcherTick 0 cookies_throw fallback_state)) = [] \<and>
   timers (loginWatcherTick 0 cookies_throw fallback_state) 0 =
     Some \<lparr>w_accountId = ''acct-2'', w_wasLoggedIn = False, w_checkCount = 1, w_interval = 1000,
           w_onLoginDetected = False\<rparr> \<and>
   loginWatchers (loginWatcherTick 0 cookies_throw fallback_state) ''acct-2'' = Some 0"
proof -
  let ?w = "\<lparr>w_accountId = ''acct-2'', w_wasLoggedIn = False, w_checkCount = 0, w_interval = 1000,
           w_onLoginDetected = False\<rparr>"
  let ?s = "demo_session\<lparr>ses_platformId := None\<rparr>"
  let ?base = "fresh_state\<lparr>activeBrowsers := [''acct-2'' \<mapsto> ?s]\<rparr>"
  have nt: "nextTimer ?base = 0"
    by (simp add: fresh_state_def)
  have live: "timers fallback_state 0 = Some ?w"
    using start_registers(1) [of "''acct-2''" False ?base]
    unfolding nt fallback_state_def .
  have reg: "loginWatchers fallback_state ''acct-2'' = Some 0"
    using start_registers(2) [of "''acct-2''" False ?base]
    unfolding nt fallback_state_def .
  have ses: "activeBrowsers fallback_state (w_accountId ?w) = Some ?s"
    by (simp add: fallback_state_def fresh_state_def startLoginWatcher_def stop_effect
        Let_def helper_defs)
  have threw: "login_report (ses_platformId ?s) (w_accountId ?w) (te_check cookies_throw) = None"
    by (simp add: login_report_def cookies_throw_def)
  have count: "w_checkCount ?w < maxChecks"
    by (simp add: maxChecks_def)
  show ?thesis
    using login_check_exception_is_ignored [OF live ses count threw] live reg ses threw
    by simp
qed

text \<open>The claim as stated fails in the world \<open>fallback_state\<close> when
  \<^verbatim>\<open>browserContext.cookies()\<close> throws "Target closed" during the login check: the check
  returns the failure object, and the tick adds no log line.\<close>

theorem login_check_exception_is_logged_counterexample:
  "timers fallback_state 0 \<noteq> None \<and>
   activeBrowsers fallback_state ''acct-2'' = Some (demo_session\<lparr>ses_platformId := None\<rparr>) \<and>
   ce_cookies (te_check cookies_throw) = Inl ''Target closed'' \<and>
   fst (checkLoginStatus ''acct-2'' (te_check cookies_throw) fallback_state)
     = failure ''Target closed'' \<and>
   logs_of (added fallback_state (loginWatcherTick 0 cookies_throw fallback_state)) = []"
proof -
  let ?w = "\<lparr>w_accountId = ''acct-2'', w_wasLoggedIn = False, w_checkCount = 0, w_interval = 1000,
           w_onLoginDetected = False\<rparr>"
  let ?s = "demo_session\<lparr>ses_platformId := None\<rparr>"
  let ?base = "fresh_state\<lparr>activeBrowsers := [''acct-2'' \<mapsto> ?s]\<rparr>"
  have nt: "nextTimer ?base = 0"
    by (simp add: fresh_state_def)
  have live: "timers fallback_state 0 = Some ?w"
    using start_registers(1) [of "''acct-2''" False ?base]
    unfolding nt fallback_state_def .
  have ses: "activeBrowsers fallback_state (w_accountId ?w) = Some ?s"
    by (simp add: fallback_state_def fresh_state_def startLoginWatcher_def stop_effect
        Let_def helper_defs)
  have threw: "login_report (ses_platformId ?s) (w_accountId ?w) (te_check cookies_throw) = None"
    by (simp add: login_report_def cookies_throw_def)
  have count: "w_checkCount ?w < maxChecks"
    by (simp add: maxChecks_def)
  have status: "fst (checkLoginStatus ''acct-2'' (te_check cookies_throw) fallback_state)
                  = failure ''Target closed''"
    using ses by (simp add: checkLoginStatus_def Let_def cookies_throw_def)
  have q: "\<not> (login_report (ses_platformId ?s) (w_accountId ?w) (te_check cookies_throw) = Some True
              \<and> \<not> w_wasLoggedIn ?w)"
          "\<not> (login_report (ses_platformId ?s) (w_accountId ?w) (te_check cookies_throw) = Some False
              \<and> w_wasLoggedIn ?w)"
    using threw by simp_all
  from tick_quiet [OF live ses count q] obtain e where
    e: "e = ContextCookies \<or> (\<exists>p. e = AdapterCheckLogin p)" and
    eq: "loginWatcherTick 0 cookies_throw fallback_state =
           fallback_state\<lparr>timers := (timers fallback_state)
                                      (0 \<mapsto> ?w\<lparr>w_checkCount := w_checkCount ?w + 1\<rparr>),
               trace := trace fallback_state @ [CheckLoginStatus (w_accountId ?w), e]\<rparr>"
    by blast
  have "logs_of (added fallback_state (loginWatcherTick 0 cookies_throw fallback_state)) = []"
    unfolding eq added_def using e by auto
  with live ses status show ?thesis
    by (simp add: cookies_throw_def)
qed

subsection \<open>At most one watcher for an account\<close>

text \<open>
  Claim C10. In every state the module can reach, two live timers of login watchers never
  belong to the same account, and every live timer is the one the registry holds for its
  account. \<^verbatim>\<open>startLoginWatcher\<close> clears the timer registered for the account before,
  registers the new one, and leaves no other live timer for the account.
  \<^verbatim>\<open>stopLoginWatcher\<close> removes the registry entry and clears its timer, after which no
  live timer belongs to the account.
\<close>

theorem one_watcher_per_account:
  assumes "reachable st"
  shows "(\<forall>t1 t2 w1 w2. timers st t1 = Some w1 \<and> timers st t2 = Some w2 \<and>
                         w_accountId w1 = w_accountId w2 \<longrightarrow> t1 = t2) \<and>
         (\<forall>t w. timers st t = Some w \<longrightarrow> loginWatchers st (w_accountId w) = Some t) \<and>
         (\<forall>old. loginWatchers st a = Some old \<longrightarrow> timers (startLoginWatcher a cb st) old = None) \<and>
         loginWatchers (startLoginWatcher a cb st) a = Some (nextTimer st) \<and>
         (\<forall>t w. timers (startLoginWatcher a cb st) t = Some w \<and> w_accountId w = a
                  \<longrightarrow> t = nextTimer st) \<and>
         loginWatchers (stopLoginWatcher a st) a = None \<and>
         (\<forall>old. loginWatchers st a = Some old \<longrightarrow> timers (stopLoginWatcher a st) old = None) \<and>
         (\<forall>t w. timers (stopLoginWatcher a st) t = Some w \<longrightarrow> w_accountId w \<noteq> a)"
proof -
  from assms have c: "watchers_consistent st" by (rule reachable_consistent)
  have c': "watchers_consistent (startLoginWatcher a cb st)" by (rule start_consistent [OF c])
  have one: "t1 = t2"
    if "timers st t1 = Some w1" "timers st t2 = Some w2" "w_accountId w1 = w_accountId w2"
    for t1 t2 w1 w2
    using c that unfolding watchers_consistent_def by (metis option.inject)
  have registered: "loginWatchers st (w_accountId w) = Some t" if "timers st t = Some w" for t w
    using c that unfolding watchers_consistent_def by blast
  have fresh: "loginWatchers (startLoginWatcher a cb st) a = Some (nextTimer st)"
    by (rule start_registers(2))
  have only: "t = nextTimer st"
    if "timers (startLoginWatcher a cb st) t = Some w" "w_accountId w = a" for t w
    using c' that fresh unfolding watchers_consistent_def by (metis option.inject)
  have live_old: "old < nextTimer st" if "loginWatchers st a = Some old" for old
    using c that unfolding watchers_consistent_def by blast
  have cancelled: "timers (startLoginWatcher a cb st) old = None"
    if "loginWatchers st a = Some old" for old
  proof (rule ccontr)
    assume "timers (startLoginWatcher a cb st) old \<noteq> None"
    then obtain w where w: "timers (startLoginWatcher a cb st) old = Some w" by blast
    have "timers (startLoginWatcher a cb st) old = (timers (stopLoginWatcher a st)) old"
      using live_old [OF that]
      by (simp add: startLoginWatcher_def stop_effect Let_def helper_defs split: option.splits)
    also have "\<dots> = None"
      using that by (simp add: stop_effect)
    finally show False using w by simp
  qed
  have stopped: "timers (stopLoginWatcher a st) old = None" if "loginWatchers st a = Some old" for old
    using that by (simp add: stop_effect)
  show ?thesis
    using one registered cancelled fresh only stopped
      stop_no_timer_left(1) [OF c, of a] stop_no_timer_left(2) [OF c, of a]
    by blast
qed

theorem one_watcher_per_account_witness:
  "reachable (startLoginWatcher ''acct-1'' False fresh_state) \<and>
   loginWatchers (startLoginWatcher ''acct-1'' False fresh_state) ''acct-1'' = Some 0 \<and>
   timers (startLoginWatcher ''acct-1'' True (startLoginWatcher ''acct-1'' False fresh_state)) 0
     = None \<and>
   loginWatchers (startLoginWatcher ''acct-1'' True (startLoginWatcher ''acct-1'' False fresh_state))
     ''acct-1'' = Some 1 \<and>
   loginWatchers (stopLoginWatcher ''acct-1'' (startLoginWatcher ''acct-1'' False fresh_state))
     ''acct-1'' = None \<and>
   timers (stopLoginWatcher ''acct-1'' (startLoginWatcher ''acct-1'' False fresh_state)) 0 = None"
proof -
  let ?st = "startLoginWatcher ''acct-1'' False fresh_state"
  have "reachable fresh_state"
    by (rule reachable.loaded) (simp_all add: fresh_state_def)
  then have reach: "reachable ?st"
    by (rule reachable.start)
  have nt: "nextTimer fresh_state = 0" "nextTimer ?st = 1"
    by (simp_all add: fresh_state_def startLoginWatcher_def stop_effect Let_def helper_defs)
  have reg: "loginWatchers ?st ''acct-1'' = Some 0"
    using start_registers(2) [of "''acct-1''" False fresh_state] unfolding nt .
  note inv = one_watcher_per_account [OF reach, of "''acct-1''" True]
  from inv reg have "timers (startLoginWatcher ''acct-1'' True ?st) 0 = None"
    by blast
  moreover from inv have "loginWatchers (startLoginWatcher ''acct-1'' True ?st) ''acct-1'' = Some 1"
    unfolding nt by blast
  moreover from inv have "loginWatchers (stopLoginWatcher ''acct-1'' ?st) ''acct-1'' = None"
    by blast
  moreover from inv reg have "timers (stopLoginWatcher ''acct-1'' ?st) 0 = None"
    by blast
  ultimately show ?thesis using reach reg by simp
qed

end
